theory Spec2Isabelle
  imports Complex_Main "HOL-Library.Sublist"
begin

section \<open>Processes, exceptions and observable events\<close>

text \<open>
  The runner of \<^verbatim>\<open>code_runner.py\<close> and \<^verbatim>\<open>web_utils.py\<close> talks to the operating
  system all the time: it spawns a child, polls it, probes ports, reads a clock and
  signals processes. Each such call is modelled by an oracle of the environment that
  says what the call returns (or raises) at that point of the run, and every signal the
  code sends is appended to a trace of events, so that "was the tree terminated before
  the call returned" is a statement about the trace.
\<close>

type_synonym pid = nat

text \<open>
  Python exceptions as values. \<^verbatim>\<open>KeyboardInterrupt\<close> derives from
  \<^verbatim>\<open>BaseException\<close> only; the other two are subclasses of \<^verbatim>\<open>Exception\<close> and carry
  the text that \<^verbatim>\<open>str(e)\<close> gives.
\<close>

datatype exn = KeyboardInterrupt | NoSuchProcess string | OtherException string

fun is_Exception :: "exn \<Rightarrow> bool" where
  "is_Exception KeyboardInterrupt = False"
| "is_Exception (NoSuchProcess m) = True"
| "is_Exception (OtherException m) = True"

fun str_exn :: "exn \<Rightarrow> string" where
  "str_exn KeyboardInterrupt = []"
| "str_exn (NoSuchProcess m) = m"
| "str_exn (OtherException m) = m"

fun is_NoSuchProcess :: "exn \<Rightarrow> bool" where
  "is_NoSuchProcess (NoSuchProcess m) = True"
| "is_NoSuchProcess e = False"

datatype event =
    Spawn string
  | Terminate pid
  | Kill pid
  | OpenBrowser string

datatype 'a outcome = Returns 'a | Raises exn

section \<open>web\_utils.py\<close>

subsection \<open>\_kill\_process\_tree\<close>

text \<open>
  What psutil answers during one call of \<^verbatim>\<open>_kill_process_tree\<close>:
  \<^item> \<open>process_lookup\<close>: \<^verbatim>\<open>psutil.Process(proc.pid)\<close>, \<open>None\<close> when it succeeds;
  \<^item> \<open>children_recursive\<close>: \<^verbatim>\<open>parent.children(recursive=True)\<close>;
  \<^item> \<open>terminate_result p\<close>: \<^verbatim>\<open>terminate()\<close> on process \<open>p\<close>, \<open>None\<close> when the
    signal was sent.
\<close>

record tree_env =
  process_lookup :: "exn option"
  children_recursive :: "exn + pid list"
  terminate_result :: "pid \<Rightarrow> exn option"

text \<open>The \<^verbatim>\<open>for child in ...: child.terminate()\<close> loop; the first exception leaves it.\<close>

fun terminate_children ::
  "(pid \<Rightarrow> exn option) \<Rightarrow> pid list \<Rightarrow> event list \<Rightarrow> exn option \<times> event list" where
  "terminate_children t [] tr = (None, tr)"
| "terminate_children t (c # cs) tr =
     (case t c of
        Some e \<Rightarrow> (Some e, tr)
      | None \<Rightarrow> terminate_children t cs (tr @ [Terminate c]))"

text \<open>The body of the \<^verbatim>\<open>try\<close> block.\<close>

definition kill_process_tree_try ::
  "tree_env \<Rightarrow> pid \<Rightarrow> event list \<Rightarrow> exn option \<times> event list" where
  "kill_process_tree_try te rp tr =
     (case process_lookup te of
        Some e \<Rightarrow> (Some e, tr)
      | None \<Rightarrow>
         (case children_recursive te of
            Inl e \<Rightarrow> (Some e, tr)
          | Inr cs \<Rightarrow>
             (case terminate_children (terminate_result te) cs tr of
                (Some e, tr') \<Rightarrow> (Some e, tr')
              | (None, tr') \<Rightarrow>
                 (case terminate_result te rp of
                    Some e \<Rightarrow> (Some e, tr')
                  | None \<Rightarrow> (None, tr' @ [Terminate rp])))))"

text \<open>
  \<^verbatim>\<open>except psutil.NoSuchProcess: pass\<close> around the whole body: that exception ends the
  call normally, any other one leaves the function.
\<close>

definition kill_process_tree ::
  "tree_env \<Rightarrow> pid \<Rightarrow> event list \<Rightarrow> exn option \<times> event list" where
  "kill_process_tree te rp tr =
     (case kill_process_tree_try te rp tr of
        (Some e, tr') \<Rightarrow> if is_NoSuchProcess e then (None, tr') else (Some e, tr')
      | (None, tr') \<Rightarrow> (None, tr'))"

subsection \<open>\_is\_port\_open\<close>

text \<open>
  \<^verbatim>\<open>socket.create_connection\<close> either connects or raises an \<^verbatim>\<open>Exception\<close>
  (refused, timed out), which \<^verbatim>\<open>_is_port_open\<close> turns into \<^verbatim>\<open>False\<close>.
\<close>

datatype connect_result = Connected | ConnectFailed string

fun is_port_open :: "connect_result \<Rightarrow> bool" where
  "is_port_open Connected = True"
| "is_port_open (ConnectFailed m) = False"

subsection \<open>\_create\_output\_reader\_thread\<close>

text \<open>
  The reader thread is the only writer of \<^verbatim>\<open>output_lines\<close> and its only operation
  on the list is \<^verbatim>\<open>output_lines.append(line)\<close>. It runs concurrently with the
  supervisor, so the model gives it as the lines it appends between two consecutive
  reads of the list by the supervisor (the oracles \<open>appended\<close> and \<open>raced\<close> below),
  always added at the end of the list.
\<close>

section \<open>code\_runner.py\<close>

subsection \<open>Text helpers\<close>

definition digit_char :: "nat \<Rightarrow> char" where
  "digit_char d = ''0123456789'' ! d"

fun str_nat :: "nat \<Rightarrow> string" where
  "str_nat n = (if n < 10 then [digit_char n] else str_nat (n div 10) @ [digit_char (n mod 10)])"

declare str_nat.simps [simp del]

definition str_int :: "int \<Rightarrow> string" where
  "str_int i = (if i < 0 then CHR ''-'' # str_nat (nat (- i)) else str_nat (nat i))"

text \<open>\<^verbatim>\<open>"\n".join(ls)\<close>\<close>

fun join_lines :: "string list \<Rightarrow> string" where
  "join_lines [] = []"
| "join_lines [l] = l"
| "join_lines (l # m # ls) = l @ CHR 0x0A # join_lines (m # ls)"

definition crash_marker :: string where
  "crash_marker = ''Traceback (most recent call last)''"

text \<open>\<^verbatim>\<open>"Traceback (most recent call last)" in line\<close>: a contiguous substring.\<close>

definition has_marker :: "string \<Rightarrow> bool" where
  "has_marker line = sublist crash_marker line"

text \<open>
  The \<^verbatim>\<open>for i, line in enumerate(new_lines)\<close> scan: at the first line with the marker
  it yields \<^verbatim>\<open>"\n".join(new_lines[i:])\<close>.
\<close>

fun scan_new_lines :: "string list \<Rightarrow> string option" where
  "scan_new_lines [] = None"
| "scan_new_lines (l # ls) =
     (if has_marker l then Some (join_lines (l # ls)) else scan_new_lines ls)"

text \<open>
  \<^verbatim>\<open>run_timeout and elapsed > run_timeout\<close>: \<^verbatim>\<open>None\<close> and \<^verbatim>\<open>0\<close> are falsy.
  The timeout is a whole number of seconds, the clock reading a rational one.
\<close>

fun timed_out :: "int option \<Rightarrow> rat \<Rightarrow> bool" where
  "timed_out None elapsed = False"
| "timed_out (Some t) elapsed = (t \<noteq> 0 \<and> of_int t < elapsed)"

subsection \<open>The environment of a run\<close>

datatype communicate_result =
    Completed string string int
  | TimeoutExpired
  | CommunicateRaises exn

text \<open>
  The oracles of one run:
  \<^item> \<open>abspath\<close>, \<open>path_exists\<close>: \<^verbatim>\<open>os.path.abspath\<close>, \<^verbatim>\<open>os.path.exists\<close>;
  \<^item> \<open>popen\<close>: \<^verbatim>\<open>subprocess.Popen\<close>, the pid of the child or the exception raised;
  \<^item> \<open>startup_poll k\<close>, \<open>connect k p\<close>: \<^verbatim>\<open>process.poll()\<close> and the connection
    attempt to port \<open>p\<close> in iteration \<open>k\<close> of the loop of \<^verbatim>\<open>run_web_server\<close>;
  \<^item> \<open>startup_lines\<close>: the contents of \<^verbatim>\<open>output_lines\<close> when \<^verbatim>\<open>run_web_server\<close>
    returns;
  \<^item> \<open>appended k\<close>: the lines the reader thread appends after the previous read of the
    list and before the slice \<^verbatim>\<open>output_lines[last_len:]\<close> of tick \<open>k\<close>;
  \<^item> \<open>raced k\<close>: the lines it appends between that slice and the
    \<^verbatim>\<open>len(output_lines)\<close> of the next statement;
  \<^item> \<open>poll k\<close>, \<open>clock k\<close>: \<^verbatim>\<open>process.poll()\<close> and
    \<^verbatim>\<open>time.time() - start_time\<close> in tick \<open>k\<close> of a supervision loop; an exception
    that arrives while the loop runs, a \<^verbatim>\<open>KeyboardInterrupt\<close> included, is one that
    the poll of some tick raises;
  \<^item> \<open>interrupted_poll\<close>: \<^verbatim>\<open>process.poll()\<close> inside the
    \<^verbatim>\<open>except KeyboardInterrupt\<close> handler;
  \<^item> \<open>psutil\<close>: the answers to \<^verbatim>\<open>_kill_process_tree\<close>;
  \<^item> \<open>stderr_file k\<close>: what \<^verbatim>\<open>err_file.read()\<close> gives in tick \<open>k\<close>;
  \<^item> \<open>handler_kill k\<close>, \<open>handler_read k\<close>: \<^verbatim>\<open>process.kill()\<close> and
    \<^verbatim>\<open>err_file.read()\<close> inside the \<^verbatim>\<open>except Exception\<close> handler of the console loop
    entered in tick \<open>k\<close>; \<^verbatim>\<open>Popen.kill()\<close> polls the process again before it signals,
    so it can raise what the poll raised;
  \<^item> \<open>communicate\<close>, \<open>communicate_after_kill\<close>, \<open>format_exc\<close>: the two
    \<^verbatim>\<open>process.communicate\<close> calls and \<^verbatim>\<open>traceback.format_exc()\<close> of
    \<^verbatim>\<open>execute_python_code\<close>.
\<close>

record run_env =
  abspath :: "string \<Rightarrow> string"
  path_exists :: "string \<Rightarrow> bool"
  popen :: "pid outcome"
  startup_poll :: "nat \<Rightarrow> int option"
  connect :: "nat \<Rightarrow> nat \<Rightarrow> connect_result"
  startup_lines :: "string list"
  appended :: "nat \<Rightarrow> string list"
  raced :: "nat \<Rightarrow> string list"
  poll :: "nat \<Rightarrow> int option outcome"
  clock :: "nat \<Rightarrow> rat"
  interrupted_poll :: "int option"
  psutil :: tree_env
  stderr_file :: "nat \<Rightarrow> string"
  handler_kill :: "nat \<Rightarrow> exn option"
  handler_read :: "nat \<Rightarrow> string outcome"
  communicate :: "string option \<Rightarrow> int option \<Rightarrow> communicate_result"
  communicate_after_kill :: "string \<times> string \<times> int"
  format_exc :: string

subsection \<open>run\_web\_server\<close>

definition default_ports :: "nat list" where
  "default_ports = [5000, 8000, 8080, 3000, 8501]"

definition default_max_wait :: rat where
  "default_max_wait = 15"

text \<open>The \<^verbatim>\<open>for p in default_ports\<close> loop with its \<^verbatim>\<open>break\<close>.\<close>

fun first_open_port :: "(nat \<Rightarrow> connect_result) \<Rightarrow> nat list \<Rightarrow> nat option" where
  "first_open_port c [] = None"
| "first_open_port c (p # ps) =
     (if is_port_open (c p) then Some p else first_open_port c ps)"

definition server_url_of :: "nat \<Rightarrow> string" where
  "server_url_of p = ''http://127.0.0.1:'' @ str_nat p"

datatype startup = ProcessExited | Bound nat | WindowElapsed

text \<open>
  The variable \<^verbatim>\<open>waited\<close> starts as \<^verbatim>\<open>0\<close> and grows by \<^verbatim>\<open>waited += poll\<close>
  with the float \<^verbatim>\<open>poll = 0.2\<close>, an IEEE double. That double is
  \<open>3602879701896397 / 2 ^ 54\<close>, and the sum of two whole multiples of \<open>1 / 2 ^ 54\<close>,
  rounded to a double, is such a multiple again: the model holds \<^verbatim>\<open>waited\<close> as this
  multiple. \<open>round_to_double\<close> keeps the 53 leading bits and rounds to nearest, ties to
  even, as the addition of doubles does.
\<close>

definition float_value :: "int \<Rightarrow> rat" where
  "float_value n = of_int n / 2 ^ 54"

function excess_bits :: "int \<Rightarrow> nat" where
  "excess_bits m = (if m < 2 ^ 53 then 0 else Suc (excess_bits (m div 2)))"
  by pat_completeness auto

termination
  by (relation "measure nat") auto

declare excess_bits.simps [simp del]

definition round_to_double :: "int \<Rightarrow> int" where
  "round_to_double m =
     (let s = excess_bits m; q = m div 2 ^ s; r = m mod 2 ^ s
      in (if 2 ^ s < 2 * r \<or> (2 * r = 2 ^ s \<and> odd q) then q + 1 else q) * 2 ^ s)"

definition float_add :: "int \<Rightarrow> int \<Rightarrow> int" where
  "float_add a b = round_to_double (a + b)"

definition poll_interval :: int where
  "poll_interval = 3602879701896397"

text \<open>
  The \<^verbatim>\<open>while waited < max_wait\<close> loop. For a very large \<^verbatim>\<open>max_wait\<close> the sum stops
  growing before it reaches the bound, and the loop does not end: the value is then
  \<open>None\<close>.
\<close>

partial_function (option) wait_for_port ::
  "run_env \<Rightarrow> rat \<Rightarrow> int \<Rightarrow> nat \<Rightarrow> startup option" where
  "wait_for_port env max_wait waited k =
     (if float_value waited < max_wait then
        (if startup_poll env k \<noteq> None then Some ProcessExited
         else
           (case first_open_port (connect env k) default_ports of
              Some p \<Rightarrow> Some (Bound p)
            | None \<Rightarrow> wait_for_port env max_wait (float_add waited poll_interval) (Suc k)))
      else Some WindowElapsed)"

record server_info =
  si_success :: bool
  si_error :: "string option"
  si_process :: pid
  si_url :: "string option"
  si_output_lines :: "string list"

definition run_web_server ::
  "run_env \<Rightarrow> string \<Rightarrow> bool \<Rightarrow> rat \<Rightarrow> ((exn + server_info) \<times> event list) option" where
  "run_web_server env filepath open_browser max_wait =
     (let abs_filepath = abspath env filepath in
      case popen env of
        Raises e \<Rightarrow> Some (Inl e, [])
      | Returns p \<Rightarrow>
         (case wait_for_port env max_wait 0 0 of
            None \<Rightarrow> None
          | Some ProcessExited \<Rightarrow>
              Some (Inr \<lparr>si_success = False, si_error = Some ''Server exited unexpectedly'',
                         si_process = p, si_url = None,
                         si_output_lines = startup_lines env\<rparr>,
                    [Spawn abs_filepath])
          | Some WindowElapsed \<Rightarrow>
              Some (Inr \<lparr>si_success = False, si_error = Some ''Server did not start in time'',
                         si_process = p, si_url = None,
                         si_output_lines = startup_lines env\<rparr>,
                    [Spawn abs_filepath])
          | Some (Bound prt) \<Rightarrow>
              Some (Inr \<lparr>si_success = True, si_error = None,
                         si_process = p, si_url = Some (server_url_of prt),
                         si_output_lines = startup_lines env\<rparr>,
                    Spawn abs_filepath #
                      (if open_browser then [OpenBrowser (server_url_of prt)] else []))))"

subsection \<open>run\_main\_web\_app\<close>

text \<open>
  \<^verbatim>\<open>result_container\<close>: \<open>None\<close> in \<open>server_error\<close> means that the key is absent.
  \<open>server_output\<close> is a reference to the live list; the model keeps what the list held
  when the key was set.
\<close>

record container =
  server_process :: "pid option"
  server_output :: "string list"
  server_url :: "string option"
  server_error :: "string option"

definition empty_container :: container where
  "empty_container =
     \<lparr>server_process = None, server_output = [], server_url = None, server_error = None\<rparr>"

text \<open>
  The function returns a \<^verbatim>\<open>bool\<close>; the model pairs it with the \<^verbatim>\<open>return\<close>
  statement that produced it.
\<close>

datatype return_site =
    ServerNeverBound
  | ServerStartTimeout
  | CrashDetected
  | UnexpectedExit
  | TimedOutStopped
  | CancelledStopped

type_synonym web_result = "(exn + bool \<times> return_site) \<times> container \<times> event list"

record web_state =
  ws_output_lines :: "string list"
  ws_last_len :: nat
  ws_container :: container
  ws_trace :: "event list"

datatype ('s, 'r) step = Continue 's | Stop 'r

text \<open>
  The two statements \<^verbatim>\<open>new_lines = output_lines[last_len:]\<close> and
  \<^verbatim>\<open>last_len = len(output_lines)\<close> of tick \<open>k\<close>: the batch, then the list and the
  cursor after them. The reader thread may append before the first and between the two.
\<close>

definition drain ::
  "run_env \<Rightarrow> nat \<Rightarrow> string list \<times> nat \<Rightarrow> string list \<times> string list \<times> nat" where
  "drain env k st =
     (let output_lines = fst st @ appended env k;
          new_lines = drop (snd st) output_lines;
          output_lines' = output_lines @ raced env k
      in (new_lines, output_lines', length output_lines'))"

text \<open>
  The \<^verbatim>\<open>except KeyboardInterrupt\<close> handler of the loop; any other exception leaves
  \<^verbatim>\<open>run_main_web_app\<close>, as does one raised inside the handler.
\<close>

definition web_except :: "run_env \<Rightarrow> pid \<Rightarrow> exn \<Rightarrow> container \<Rightarrow> event list \<Rightarrow> web_result" where
  "web_except env p e rc tr =
     (case e of
        KeyboardInterrupt \<Rightarrow>
          (case interrupted_poll env of
             None \<Rightarrow>
               (case kill_process_tree (psutil env) p tr of
                  (Some e', tr') \<Rightarrow> (Inl e', rc, tr')
                | (None, tr') \<Rightarrow> (Inr (True, CancelledStopped), rc, tr'))
           | Some code \<Rightarrow> (Inr (True, CancelledStopped), rc, tr))
      | NoSuchProcess m \<Rightarrow> (Inl e, rc, tr)
      | OtherException m \<Rightarrow> (Inl e, rc, tr))"

text \<open>One pass through the body of \<^verbatim>\<open>while True\<close>, up to the \<^verbatim>\<open>time.sleep(1)\<close>.\<close>

definition web_tick ::
  "run_env \<Rightarrow> int option \<Rightarrow> pid \<Rightarrow> nat \<Rightarrow> web_state \<Rightarrow> (web_state, web_result) step" where
  "web_tick env run_timeout p k s =
     (case drain env k (ws_output_lines s, ws_last_len s) of
        (new_lines, output_lines', last_len') \<Rightarrow>
          (case scan_new_lines new_lines of
             Some tb \<Rightarrow>
               (case kill_process_tree (psutil env) p (ws_trace s) of
                  (Some e, tr') \<Rightarrow>
                    Stop (web_except env p e ((ws_container s)\<lparr>server_error := Some tb\<rparr>) tr')
                | (None, tr') \<Rightarrow>
                    Stop (Inr (False, CrashDetected),
                          (ws_container s)\<lparr>server_error := Some tb\<rparr>, tr'))
           | None \<Rightarrow>
               (case poll env k of
                  Raises e \<Rightarrow> Stop (web_except env p e (ws_container s) (ws_trace s))
                | Returns (Some code) \<Rightarrow>
                    Stop (Inr (False, UnexpectedExit),
                          (if server_error (ws_container s) = None
                           then (ws_container s)\<lparr>server_error :=
                                  Some ''Web server stopped unexpectedly''\<rparr>
                           else ws_container s),
                          ws_trace s)
                | Returns None \<Rightarrow>
                    (if timed_out run_timeout (clock env k) then
                       (case kill_process_tree (psutil env) p (ws_trace s) of
                          (Some e, tr') \<Rightarrow> Stop (web_except env p e (ws_container s) tr')
                        | (None, tr') \<Rightarrow>
                            Stop (Inr (True, TimedOutStopped), ws_container s, tr'))
                     else
                       Continue (s\<lparr>ws_output_lines := output_lines',
                                   ws_last_len := last_len'\<rparr>)))))"

text \<open>The \<^verbatim>\<open>while True\<close> loop: it may run forever, and then the value is \<open>None\<close>.\<close>

partial_function (option) web_poll_loop ::
  "run_env \<Rightarrow> int option \<Rightarrow> pid \<Rightarrow> nat \<Rightarrow> web_state \<Rightarrow> web_result option" where
  "web_poll_loop env run_timeout p k s =
     (case web_tick env run_timeout p k s of
        Stop r \<Rightarrow> Some r
      | Continue s' \<Rightarrow> web_poll_loop env run_timeout p (Suc k) s')"

definition startup_failure_site :: "server_info \<Rightarrow> return_site" where
  "startup_failure_site si =
     (if si_error si = Some ''Server exited unexpectedly'' then ServerNeverBound
      else ServerStartTimeout)"

definition run_main_web_app ::
  "run_env \<Rightarrow> string \<Rightarrow> bool \<Rightarrow> int option \<Rightarrow> container option \<Rightarrow> web_result option" where
  "run_main_web_app env main_path open_browser run_timeout result_container =
     (let rc0 = (case result_container of None \<Rightarrow> empty_container | Some c \<Rightarrow> c) in
      case run_web_server env main_path open_browser default_max_wait of
        None \<Rightarrow> None
      | Some (Inl e, tr) \<Rightarrow> Some (Inl e, rc0, tr)
      | Some (Inr si, tr) \<Rightarrow>
          (let rc1 = rc0\<lparr>server_process := Some (si_process si),
                         server_output := si_output_lines si,
                         server_url := si_url si\<rparr>
           in if \<not> si_success si then
                Some (Inr (False, startup_failure_site si),
                      rc1\<lparr>server_error :=
                            Some (case si_error si of
                                    None \<Rightarrow> ''failed to run web server''
                                  | Some m \<Rightarrow> m)\<rparr>,
                      tr)
              else
                web_poll_loop env run_timeout (si_process si) 0
                  \<lparr>ws_output_lines = si_output_lines si, ws_last_len = 0,
                   ws_container = rc1, ws_trace = tr\<rparr>))"

subsection \<open>run\_main\_as\_console\_app\<close>

text \<open>
  A result dictionary; \<open>None\<close> stands for an absent key and for the value
  \<^verbatim>\<open>None\<close> alike.
\<close>

record exec_result =
  success :: bool
  error :: "string option"
  stdout :: "string option"
  stderr :: "string option"
  returncode :: "int option"
  filepath :: "string option"

type_synonym console_result = "(exn + exec_result) \<times> event list"

text \<open>
  The \<^verbatim>\<open>except Exception\<close> handler of the console loop: an exception raised by its
  own \<^verbatim>\<open>process.kill()\<close> or \<^verbatim>\<open>err_file.read()\<close> leaves the function.
\<close>

definition console_except ::
  "run_env \<Rightarrow> pid \<Rightarrow> string \<Rightarrow> nat \<Rightarrow> exn \<Rightarrow> event list \<Rightarrow> console_result" where
  "console_except env p abs_main k e tr =
     (if is_Exception e then
        (case handler_kill env k of
           Some e' \<Rightarrow> (Inl e', tr)
         | None \<Rightarrow>
            (case handler_read env k of
               Raises e' \<Rightarrow> (Inl e', tr @ [Kill p])
             | Returns stderr_content \<Rightarrow>
                 (Inr \<lparr>success = False, error = Some (str_exn e), stdout = Some [],
                       stderr = Some stderr_content, returncode = None,
                       filepath = Some abs_main\<rparr>,
                  tr @ [Kill p])))
      else (Inl e, tr))"

text \<open>
  One pass through the body of the console loop, up to \<^verbatim>\<open>time.sleep(0.1)\<close>, with
  the handler around it. \<^verbatim>\<open>process.kill()\<close> signals the child only.
\<close>

definition console_tick ::
  "run_env \<Rightarrow> int option \<Rightarrow> pid \<Rightarrow> string \<Rightarrow> nat \<Rightarrow> event list \<Rightarrow> (event list, console_result) step" where
  "console_tick env run_timeout p abs_main k tr =
     (case poll env k of
        Raises e \<Rightarrow> Stop (console_except env p abs_main k e tr)
      | Returns (Some ret) \<Rightarrow>
          Stop (Inr \<lparr>success = (ret = 0),
                     error = (if ret = 0 then None else Some ''failed to run''),
                     stdout = Some [], stderr = Some (stderr_file env k),
                     returncode = Some ret, filepath = Some abs_main\<rparr>,
                tr)
      | Returns None \<Rightarrow>
          (if timed_out run_timeout (clock env k) then
             Stop (Inr \<lparr>success = False,
                        error = Some (''time out'' @
                                      (case run_timeout of None \<Rightarrow> ''None'' | Some t \<Rightarrow> str_int t) @
                                      ''seconds. terminate now''),
                        stdout = Some [], stderr = Some (stderr_file env k),
                        returncode = None, filepath = Some abs_main\<rparr>,
                   tr @ [Kill p])
           else Continue tr))"

partial_function (option) console_poll_loop ::
  "run_env \<Rightarrow> int option \<Rightarrow> pid \<Rightarrow> string \<Rightarrow> nat \<Rightarrow> event list \<Rightarrow> console_result option" where
  "console_poll_loop env run_timeout p abs_main k tr =
     (case console_tick env run_timeout p abs_main k tr of
        Stop r \<Rightarrow> Some r
      | Continue tr' \<Rightarrow> console_poll_loop env run_timeout p abs_main (Suc k) tr')"

text \<open>\<^verbatim>\<open>subprocess.Popen\<close> is called before the \<^verbatim>\<open>try\<close>, and no existence check precedes it.\<close>

definition run_main_as_console_app ::
  "run_env \<Rightarrow> string \<Rightarrow> int option \<Rightarrow> console_result option" where
  "run_main_as_console_app env main_path run_timeout =
     (let abs_main = abspath env main_path in
      case popen env of
        Raises e \<Rightarrow> Some (Inl e, [])
      | Returns p \<Rightarrow> console_poll_loop env run_timeout p abs_main 0 [Spawn abs_main])"

subsection \<open>execute\_python\_code\<close>

definition execution_exception :: "run_env \<Rightarrow> string \<Rightarrow> exn \<Rightarrow> event list \<Rightarrow> console_result" where
  "execution_exception env fp e tr =
     (if is_Exception e then
        (Inr \<lparr>success = False, error = Some (''Execution exception: '' @ str_exn e),
              stdout = Some [], stderr = Some (format_exc env), returncode = None,
              filepath = Some fp\<rparr>, tr)
      else (Inl e, tr))"

definition execute_python_code ::
  "run_env \<Rightarrow> string \<Rightarrow> int option \<Rightarrow> string option \<Rightarrow> console_result" where
  "execute_python_code env fp timeout input_text =
     (let abs_filepath = abspath env fp in
      if \<not> path_exists env abs_filepath then
        (Inr \<lparr>success = False, error = Some (''file not found '' @ abs_filepath),
              stdout = None, stderr = None, returncode = None, filepath = None\<rparr>, [])
      else
        (case popen env of
           Raises e \<Rightarrow> execution_exception env fp e []
         | Returns p \<Rightarrow>
            (case communicate env input_text timeout of
               Completed out err code \<Rightarrow>
                 (Inr \<lparr>success = (code = 0), error = None, stdout = Some out,
                       stderr = Some err, returncode = Some code,
                       filepath = Some abs_filepath\<rparr>,
                  [Spawn abs_filepath])
             | TimeoutExpired \<Rightarrow>
                 (case communicate_after_kill env of
                    (out, err, code) \<Rightarrow>
                      (Inr \<lparr>success = False,
                            error = Some (''timeout '' @
                                          (case timeout of None \<Rightarrow> ''None'' | Some t \<Rightarrow> str_int t) @
                                          '' seconds''),
                            stdout = Some out, stderr = Some err, returncode = Some code,
                            filepath = Some abs_filepath\<rparr>,
                       [Spawn abs_filepath, Kill p]))
             | CommunicateRaises e \<Rightarrow> execution_exception env fp e [Spawn abs_filepath])))"

section \<open>Runs of the supervision loops\<close>

text \<open>
  \<open>web_run env rt p k s n\<close> is the state of the service loop after \<open>n\<close> more ticks, started
  in state \<open>s\<close> at tick \<open>k\<close>, when none of these ticks returned; \<open>console_run\<close> is the
  same for the console loop.
\<close>

fun web_run ::
  "run_env \<Rightarrow> int option \<Rightarrow> pid \<Rightarrow> nat \<Rightarrow> web_state \<Rightarrow> nat \<Rightarrow> web_state option" where
  "web_run env rt p k s 0 = Some s"
| "web_run env rt p k s (Suc n) =
     (case web_tick env rt p k s of
        Stop r \<Rightarrow> None
      | Continue s' \<Rightarrow> web_run env rt p (Suc k) s' n)"

fun console_run ::
  "run_env \<Rightarrow> int option \<Rightarrow> pid \<Rightarrow> string \<Rightarrow> nat \<Rightarrow> event list \<Rightarrow> nat \<Rightarrow> event list option" where
  "console_run env rt p a k tr 0 = Some tr"
| "console_run env rt p a k tr (Suc n) =
     (case console_tick env rt p a k tr of
        Stop r \<Rightarrow> None
      | Continue tr' \<Rightarrow> console_run env rt p a (Suc k) tr' n)"

text \<open>
  \<open>waited_after k\<close> is the value of \<^verbatim>\<open>waited\<close> after \<open>k\<close> additions, and
  \<open>window_open mw w n\<close> says that the loop condition holds \<open>n\<close> times in a row from
  the value \<open>w\<close> on.
\<close>

fun waited_after :: "nat \<Rightarrow> int" where
  "waited_after 0 = 0"
| "waited_after (Suc k) = float_add (waited_after k) poll_interval"

fun window_open :: "rat \<Rightarrow> int \<Rightarrow> nat \<Rightarrow> bool" where
  "window_open mw w 0 = True"
| "window_open mw w (Suc n) =
     (float_value w < mw \<and> window_open mw (float_add w poll_interval) n)"

text \<open>
  The list and the cursor after \<open>n\<close> drains from tick \<open>k\<close> on, and the batches these
  drains took.
\<close>

fun cursor_from :: "run_env \<Rightarrow> nat \<Rightarrow> string list \<times> nat \<Rightarrow> nat \<Rightarrow> string list \<times> nat" where
  "cursor_from env k st 0 = st"
| "cursor_from env k st (Suc n) = cursor_from env (Suc k) (snd (drain env k st)) n"

fun batches :: "run_env \<Rightarrow> nat \<Rightarrow> string list \<times> nat \<Rightarrow> nat \<Rightarrow> string list list" where
  "batches env k st 0 = []"
| "batches env k st (Suc n) =
     fst (drain env k st) # batches env (Suc k) (snd (drain env k st)) n"

text \<open>
  \<open>batch_at env k st j\<close> is the batch \<^verbatim>\<open>new_lines\<close> of tick \<open>k + j\<close> when the loop was
  in state \<open>st\<close> at tick \<open>k\<close>; \<open>new_lines_at env j\<close> is the batch of tick \<open>j\<close> of a run of
  \<^verbatim>\<open>run_main_web_app\<close>, which starts with the lines captured during startup and the
  cursor 0.
\<close>

definition batch_at :: "run_env \<Rightarrow> nat \<Rightarrow> string list \<times> nat \<Rightarrow> nat \<Rightarrow> string list" where
  "batch_at env k st j = fst (drain env (k + j) (cursor_from env k st j))"

definition new_lines_at :: "run_env \<Rightarrow> nat \<Rightarrow> string list" where
  "new_lines_at env j = batch_at env 0 (startup_lines env, 0) j"

text \<open>The state in which \<^verbatim>\<open>run_main_web_app\<close> enters its loop.\<close>

definition web_start :: "container option \<Rightarrow> server_info \<Rightarrow> event list \<Rightarrow> web_state" where
  "web_start result_container si tr =
     \<lparr>ws_output_lines = si_output_lines si, ws_last_len = 0,
      ws_container =
        (case result_container of None \<Rightarrow> empty_container | Some c \<Rightarrow> c)
          \<lparr>server_process := Some (si_process si),
           server_output := si_output_lines si,
           server_url := si_url si\<rparr>,
      ws_trace = tr\<rparr>"

text \<open>
  A process counts as stopped once a terminate or kill signal was sent to it; a tree is
  stopped when its root and all its descendants are.
\<close>

fun is_signal :: "event \<Rightarrow> bool" where
  "is_signal (Terminate q) = True"
| "is_signal (Kill q) = True"
| "is_signal e = False"

definition signalled :: "event list \<Rightarrow> pid \<Rightarrow> bool" where
  "signalled tr q = (Terminate q \<in> set tr \<or> Kill q \<in> set tr)"

definition tree_signalled :: "pid \<Rightarrow> pid list \<Rightarrow> event list \<Rightarrow> bool" where
  "tree_signalled rp ds tr = list_all (signalled tr) (rp # ds)"

section \<open>Concrete environments\<close>

text \<open>
  A process tree with root 10 and descendants 11 and 12; in \<open>psutil_ok\<close> every lookup
  succeeds, in \<open>psutil_child_gone\<close> process 11 has exited by the time it is signalled.
\<close>

definition psutil_ok :: tree_env where
  "psutil_ok =
     \<lparr>process_lookup = None, children_recursive = Inr [11, 12],
      terminate_result = (\<lambda>q. None)\<rparr>"

definition psutil_child_gone :: tree_env where
  "psutil_child_gone =
     \<lparr>process_lookup = None, children_recursive = Inr [11, 12],
      terminate_result =
        (\<lambda>q. if q = 11 then Some (NoSuchProcess ''process no longer exists (pid=11)'')
             else None)\<rparr>"

text \<open>
  A server that binds port 8000 at once, prints nothing, never exits, with a clock that
  advances one second per tick.
\<close>

definition env_quiet_server :: run_env where
  "env_quiet_server =
     \<lparr>abspath = (\<lambda>f. f), path_exists = (\<lambda>f. True), popen = Returns 10,
      startup_poll = (\<lambda>k. None),
      connect = (\<lambda>k q. if q = 8000 then Connected else ConnectFailed ''refused''),
      startup_lines = [], appended = (\<lambda>k. []), raced = (\<lambda>k. []),
      poll = (\<lambda>k. Returns None), clock = (\<lambda>k. of_nat k),
      interrupted_poll = None, psutil = psutil_ok, stderr_file = (\<lambda>k. []),
      handler_kill = (\<lambda>k. None), handler_read = (\<lambda>k. Returns []),
      communicate = (\<lambda>i t. Completed [] [] 0), communicate_after_kill = ([], [], - 9),
      format_exc = []\<rparr>"

text \<open>
  Three startups: a server that binds ports 8080 and 3000 in the third iteration, one
  that exits in the second iteration without binding, and one that never binds.
\<close>

definition env_late_bind :: run_env where
  "env_late_bind =
     env_quiet_server\<lparr>connect :=
       (\<lambda>k q. if 2 \<le> k \<and> (q = 8080 \<or> q = 3000) then Connected else ConnectFailed ''refused'')\<rparr>"

definition env_startup_exit :: run_env where
  "env_startup_exit =
     env_quiet_server\<lparr>connect := (\<lambda>k q. ConnectFailed ''refused''),
                      startup_poll := (\<lambda>k. if 1 \<le> k then Some 1 else None)\<rparr>"

definition env_never_binds :: run_env where
  "env_never_binds = env_quiet_server\<lparr>connect := (\<lambda>k q. ConnectFailed ''refused'')\<rparr>"

text \<open>
  A server that prints a traceback and exits before it has bound a port, and one that
  serves a request and then prints a traceback in the second tick of the loop.
\<close>

definition env_crash_at_startup :: run_env where
  "env_crash_at_startup =
     env_quiet_server\<lparr>connect := (\<lambda>k q. ConnectFailed ''refused''),
                      startup_poll := (\<lambda>k. Some 1),
                      startup_lines :=
                        [''Traceback (most recent call last):'',
                         ''ModuleNotFoundError: No module named flask'']\<rparr>"

definition env_crash_while_running :: run_env where
  "env_crash_while_running =
     env_quiet_server\<lparr>appended :=
       (\<lambda>k. if k = 0 then [''Running on http://127.0.0.1:8000'']
            else if k = 1 then [''GET /'', ''Traceback (most recent call last):'',
                                ''ZeroDivisionError: division by zero'']
            else [])\<rparr>"

text \<open>
  A child whose handle has become invalid, so that \<^verbatim>\<open>poll()\<close> raises and
  \<^verbatim>\<open>kill()\<close> on the same handle with it; an entry file that does not exist, so that the
  interpreter that was started for it exits with status 2; and a reader thread that appends
  a line between the two reads of the list in the first tick; and a server one of whose
  descendants has exited when the tree is terminated.
\<close>

definition env_poll_raises :: run_env where
  "env_poll_raises =
     env_quiet_server
       \<lparr>poll := (\<lambda>k. Raises (OtherException ''[WinError 6] The handle is invalid'')),
        handler_kill := (\<lambda>k. Some (OtherException ''[WinError 6] The handle is invalid''))\<rparr>"

definition env_missing_file :: run_env where
  "env_missing_file =
     env_quiet_server\<lparr>path_exists := (\<lambda>f. False),
                      startup_poll := (\<lambda>k. Some 2),
                      connect := (\<lambda>k q. ConnectFailed ''refused''),
                      poll := (\<lambda>k. Returns (Some 2)),
                      stderr_file := (\<lambda>k. ''No such file or directory'')\<rparr>"

definition env_child_gone :: run_env where
  "env_child_gone = env_quiet_server\<lparr>psutil := psutil_child_gone\<rparr>"

definition env_race :: run_env where
  "env_race =
     env_quiet_server\<lparr>raced := (\<lambda>k. if k = 0 then [''GET /index 200''] else [])\<rparr>"

text \<open>
  A server that prints a last line and exits: the reader thread appends the line after
  the supervisor has taken the slice of the first tick, and the poll of that tick finds
  the process exited.
\<close>

definition env_last_words :: run_env where
  "env_last_words =
     env_quiet_server\<lparr>poll := (\<lambda>k. Returns (Some 0)),
                      raced := (\<lambda>k. if k = 0 then [''Shutting down''] else [])\<rparr>"

section \<open>Termination of a process tree\<close>

lemma terminate_children_all_sent:
  "(\<And>c. c \<in> set cs \<Longrightarrow> t c = None) \<Longrightarrow>
   terminate_children t cs tr = (None, tr @ map Terminate cs)"
  by (induction cs arbitrary: tr) simp_all

text \<open>
  When every lookup succeeds, each descendant receives its signal, in the order of the
  enumeration, and the root receives the last one.
\<close>

lemma kill_process_tree_all_sent:
  assumes "process_lookup te = None" and "children_recursive te = Inr cs"
    and "\<And>c. c \<in> set (rp # cs) \<Longrightarrow> terminate_result te c = None"
  shows "kill_process_tree te rp tr = (None, tr @ map Terminate cs @ [Terminate rp])"
proof -
  have "terminate_children (terminate_result te) cs tr = (None, tr @ map Terminate cs)"
    using assms(3) by (intro terminate_children_all_sent) simp
  then show ?thesis
    using assms by (simp add: kill_process_tree_def kill_process_tree_try_def)
qed

text \<open>A \<^verbatim>\<open>NoSuchProcess\<close> never leaves the terminator.\<close>

lemma kill_process_tree_swallows:
  "fst (kill_process_tree te rp tr) = Some e \<Longrightarrow> \<not> is_NoSuchProcess e"
  by (auto simp: kill_process_tree_def split: prod.splits option.splits if_splits)

lemma kill_process_tree_all_signalled:
  assumes "process_lookup te = None" and "children_recursive te = Inr cs"
    and "\<And>c. c \<in> set (rp # cs) \<Longrightarrow> terminate_result te c = None"
  shows "tree_signalled rp cs (snd (kill_process_tree te rp tr))"
proof -
  have "signalled (tr @ map Terminate cs @ [Terminate rp]) q" if "q \<in> set (rp # cs)" for q
    using that by (auto simp: signalled_def)
  moreover have "kill_process_tree te rp tr = (None, tr @ map Terminate cs @ [Terminate rp])"
    using assms by (rule kill_process_tree_all_sent)
  ultimately show ?thesis
    by (simp add: tree_signalled_def list_all_iff)
qed

text \<open>
  C9. The terminator sends a terminate signal to every descendant before the root, and a
  "process no longer exists" condition met on the way is a no-op after which the root
  still receives its signal. Evaluated on a tree whose first descendant has already
  exited: the call ends without error, and neither the second descendant nor the root
  has been signalled.
\<close>

theorem kill_process_tree_child_gone:
  "kill_process_tree psutil_child_gone 10 [] = (None, []) \<and>
   \<not> signalled (snd (kill_process_tree psutil_child_gone 10 [])) 10 \<and>
   \<not> signalled (snd (kill_process_tree psutil_child_gone 10 [])) 12"
  by (simp add: kill_process_tree_def kill_process_tree_try_def psutil_child_gone_def
      signalled_def)

section \<open>The loops return exactly at their first stopping tick\<close>

lemma web_loop_from_run:
  "web_run env rt p k s n = Some s' \<Longrightarrow> web_tick env rt p (k + n) s' = Stop r \<Longrightarrow>
   web_poll_loop env rt p k s = Some r"
proof (induction n arbitrary: k s)
  case 0
  then show ?case by (subst web_poll_loop.simps) simp
next
  case (Suc n)
  then show ?case
    by (subst web_poll_loop.simps) (auto split: step.splits)
qed

lemma web_loop_to_run:
  assumes "web_poll_loop env rt p k s = Some r"
  shows "\<exists>n s'. web_run env rt p k s n = Some s' \<and> web_tick env rt p (k + n) s' = Stop r"
proof (rule web_poll_loop.raw_induct
    [where P = "\<lambda>env rt p k s r. \<exists>n s'. web_run env rt p k s n = Some s' \<and>
                                        web_tick env rt p (k + n) s' = Stop r", OF _ assms])
  fix f env rt p k s r
  assume IH: "\<And>env rt p k s y. f env rt p k s = Some y \<Longrightarrow>
                \<exists>n s'. web_run env rt p k s n = Some s' \<and> web_tick env rt p (k + n) s' = Stop y"
  assume eq: "(case web_tick env rt p k s of
                 Continue s' \<Rightarrow> f env rt p (Suc k) s' | Stop r \<Rightarrow> Some r) = Some r"
  show "\<exists>n s'. web_run env rt p k s n = Some s' \<and> web_tick env rt p (k + n) s' = Stop r"
  proof (cases "web_tick env rt p k s")
    case (Stop r')
    with eq have "r' = r" by simp
    with Stop have "web_run env rt p k s 0 = Some s \<and> web_tick env rt p (k + 0) s = Stop r"
      by simp
    then show ?thesis by blast
  next
    case (Continue s1)
    with eq have "f env rt p (Suc k) s1 = Some r" by simp
    from IH[OF this] obtain n s' where
      "web_run env rt p (Suc k) s1 n = Some s'" "web_tick env rt p (Suc k + n) s' = Stop r"
      by blast
    with Continue have
      "web_run env rt p k s (Suc n) = Some s' \<and> web_tick env rt p (k + Suc n) s' = Stop r"
      by simp
    then show ?thesis by blast
  qed
qed

lemma console_loop_from_run:
  "console_run env rt p a k tr n = Some tr' \<Longrightarrow>
   console_tick env rt p a (k + n) tr' = Stop r \<Longrightarrow>
   console_poll_loop env rt p a k tr = Some r"
proof (induction n arbitrary: k tr)
  case 0
  then show ?case by (subst console_poll_loop.simps) simp
next
  case (Suc n)
  then show ?case
    by (subst console_poll_loop.simps) (auto split: step.splits)
qed

lemma console_loop_to_run:
  assumes "console_poll_loop env rt p a k tr = Some r"
  shows "\<exists>n tr'. console_run env rt p a k tr n = Some tr' \<and>
                  console_tick env rt p a (k + n) tr' = Stop r"
proof (rule console_poll_loop.raw_induct
    [where P = "\<lambda>env rt p a k tr r. \<exists>n tr'. console_run env rt p a k tr n = Some tr' \<and>
                                        console_tick env rt p a (k + n) tr' = Stop r", OF _ assms])
  fix f env rt p a k tr r
  assume IH: "\<And>env rt p a k tr y. f env rt p a k tr = Some y \<Longrightarrow>
                \<exists>n tr'. console_run env rt p a k tr n = Some tr' \<and>
                         console_tick env rt p a (k + n) tr' = Stop y"
  assume eq: "(case console_tick env rt p a k tr of
                 Continue tr' \<Rightarrow> f env rt p a (Suc k) tr' | Stop r \<Rightarrow> Some r) = Some r"
  show "\<exists>n tr'. console_run env rt p a k tr n = Some tr' \<and>
                 console_tick env rt p a (k + n) tr' = Stop r"
  proof (cases "console_tick env rt p a k tr")
    case (Stop r')
    with eq have "r' = r" by simp
    with Stop have "console_run env rt p a k tr 0 = Some tr \<and>
                    console_tick env rt p a (k + 0) tr = Stop r"
      by simp
    then show ?thesis by blast
  next
    case (Continue tr1)
    with eq have "f env rt p a (Suc k) tr1 = Some r" by simp
    from IH[OF this] obtain n tr' where
      "console_run env rt p a (Suc k) tr1 n = Some tr'"
      "console_tick env rt p a (Suc k + n) tr' = Stop r"
      by blast
    with Continue have
      "console_run env rt p a k tr (Suc n) = Some tr' \<and>
       console_tick env rt p a (k + Suc n) tr' = Stop r"
      by simp
    then show ?thesis by blast
  qed
qed

section \<open>The port probe\<close>

lemma first_open_port_None:
  "first_open_port c ps = None \<longleftrightarrow> (\<forall>r \<in> set ps. \<not> is_port_open (c r))"
  by (induction ps) auto

lemma first_open_port_Some:
  "first_open_port c ps = Some q \<longleftrightarrow>
   (\<exists>pre post. ps = pre @ q # post \<and> is_port_open (c q) \<and> (\<forall>r \<in> set pre. \<not> is_port_open (c r)))"
proof (induction ps)
  case Nil
  then show ?case by simp
next
  case (Cons a ps)
  show ?case
  proof (cases "is_port_open (c a)")
    case True
    have "(\<exists>pre post. a # ps = pre @ q # post \<and> is_port_open (c q) \<and>
             (\<forall>r \<in> set pre. \<not> is_port_open (c r))) \<longleftrightarrow> a = q"
    proof
      assume "\<exists>pre post. a # ps = pre @ q # post \<and> is_port_open (c q) \<and>
             (\<forall>r \<in> set pre. \<not> is_port_open (c r))"
      then obtain pre post where *: "a # ps = pre @ q # post" "\<forall>r \<in> set pre. \<not> is_port_open (c r)"
        by blast
      show "a = q"
      proof (cases pre)
        case Nil
        with * show ?thesis by simp
      next
        case (Cons b pre')
        with * True show ?thesis by auto
      qed
    next
      assume "a = q"
      with True have "a # ps = [] @ q # ps \<and> is_port_open (c q) \<and> (\<forall>r \<in> set []. \<not> is_port_open (c r))"
        by simp
      then show "\<exists>pre post. a # ps = pre @ q # post \<and> is_port_open (c q) \<and>
             (\<forall>r \<in> set pre. \<not> is_port_open (c r))" by blast
    qed
    with True show ?thesis by auto
  next
    case False
    have "(\<exists>pre post. a # ps = pre @ q # post \<and> is_port_open (c q) \<and>
             (\<forall>r \<in> set pre. \<not> is_port_open (c r))) \<longleftrightarrow>
          (\<exists>pre post. ps = pre @ q # post \<and> is_port_open (c q) \<and>
             (\<forall>r \<in> set pre. \<not> is_port_open (c r)))" (is "?L \<longleftrightarrow> ?R")
    proof
      assume ?L
      then obtain pre post where *: "a # ps = pre @ q # post" "is_port_open (c q)"
        "\<forall>r \<in> set pre. \<not> is_port_open (c r)"
        by blast
      show ?R
      proof (cases pre)
        case Nil
        with * False show ?thesis by simp
      next
        case (Cons b pre')
        with * have "ps = pre' @ q # post \<and> is_port_open (c q) \<and> (\<forall>r \<in> set pre'. \<not> is_port_open (c r))"
          by simp
        then show ?thesis by blast
      qed
    next
      assume ?R
      then obtain pre post where *: "ps = pre @ q # post" "is_port_open (c q)"
        "\<forall>r \<in> set pre. \<not> is_port_open (c r)"
        by blast
      with False have "a # ps = (a # pre) @ q # post \<and> is_port_open (c q) \<and>
         (\<forall>r \<in> set (a # pre). \<not> is_port_open (c r))" by simp
      then show ?L by blast
    qed
    with False Cons.IH show ?thesis by simp
  qed
qed

lemma wait_for_port_continue:
  "float_value waited < mw \<Longrightarrow> startup_poll env k = None \<Longrightarrow>
   first_open_port (connect env k) default_ports = None \<Longrightarrow>
   wait_for_port env mw waited k =
     wait_for_port env mw (float_add waited poll_interval) (Suc k)"
  by (subst wait_for_port.simps) simp

lemma wait_for_port_exited:
  "float_value waited < mw \<Longrightarrow> startup_poll env k \<noteq> None \<Longrightarrow>
   wait_for_port env mw waited k = Some ProcessExited"
  by (subst wait_for_port.simps) simp

lemma wait_for_port_bound:
  "float_value waited < mw \<Longrightarrow> startup_poll env k = None \<Longrightarrow>
   first_open_port (connect env k) default_ports = Some q \<Longrightarrow>
   wait_for_port env mw waited k = Some (Bound q)"
  by (subst wait_for_port.simps) simp

lemma wait_for_port_done:
  "\<not> float_value waited < mw \<Longrightarrow> wait_for_port env mw waited k = Some WindowElapsed"
  by (subst wait_for_port.simps) simp

lemma wait_for_port_skip:
  assumes "\<And>j. j < n \<Longrightarrow>
             float_value (waited_after (k0 + j)) < mw \<and> startup_poll env (k0 + j) = None \<and>
             first_open_port (connect env (k0 + j)) default_ports = None"
  shows "wait_for_port env mw (waited_after k0) k0 =
         wait_for_port env mw (waited_after (k0 + n)) (k0 + n)"
  using assms
proof (induction n arbitrary: k0)
  case 0
  then show ?case by simp
next
  case (Suc n)
  have q: "float_value (waited_after k0) < mw" "startup_poll env k0 = None"
    "first_open_port (connect env k0) default_ports = None"
    using Suc.prems[of 0] by simp_all
  have "wait_for_port env mw (waited_after k0) k0 =
        wait_for_port env mw (waited_after (Suc k0)) (Suc k0)"
    using wait_for_port_continue[OF q] by simp
  also have "\<dots> = wait_for_port env mw (waited_after (Suc k0 + n)) (Suc k0 + n)"
  proof (rule Suc.IH)
    fix j assume "j < n"
    then show "float_value (waited_after (Suc k0 + j)) < mw \<and>
               startup_poll env (Suc k0 + j) = None \<and>
               first_open_port (connect env (Suc k0 + j)) default_ports = None"
      using Suc.prems[of "Suc j"] by simp
  qed
  finally show ?case by simp
qed

text \<open>
  The sums of the default window: the loop condition \<^verbatim>\<open>waited < 15\<close> holds 76 times,
  since 75 additions of the double \<^verbatim>\<open>0.2\<close> give a value just below 15.
\<close>

lemma window_open_iff:
  "window_open mw (waited_after k0) n \<longleftrightarrow>
   (\<forall>j<n. float_value (waited_after (k0 + j)) < mw)"
proof (induction n arbitrary: k0)
  case 0
  then show ?case by simp
next
  case (Suc n)
  have "window_open mw (waited_after k0) (Suc n) \<longleftrightarrow>
        float_value (waited_after k0) < mw \<and> window_open mw (waited_after (Suc k0)) n"
    by simp
  also have "\<dots> \<longleftrightarrow> float_value (waited_after k0) < mw \<and>
                    (\<forall>j<n. float_value (waited_after (Suc k0 + j)) < mw)"
    by (simp only: Suc.IH)
  also have "\<dots> \<longleftrightarrow> (\<forall>j<Suc n. float_value (waited_after (k0 + j)) < mw)"
    by (auto simp: less_Suc_eq_0_disj)
  finally show ?case .
qed

lemma window_open_unfold:
  "window_open mw w n =
     (n = 0 \<or> float_value w < mw \<and> window_open mw (float_add w poll_interval) (n - 1))"
  by (cases n) simp_all

lemma default_window_76: "window_open 15 0 76"
  by (simp add: window_open_unfold[of _ _ "numeral n" for n] float_add_def round_to_double_def
      poll_interval_def excess_bits.simps Let_def float_value_def)

lemma default_window_77: "\<not> window_open 15 0 77"
  by (simp add: window_open_unfold[of _ _ "numeral n" for n] float_add_def round_to_double_def
      poll_interval_def excess_bits.simps Let_def float_value_def)

lemma default_window:
  "(\<forall>j<76. float_value (waited_after j) < 15) \<and> \<not> float_value (waited_after 76) < 15"
proof -
  have a: "\<forall>j<76. float_value (waited_after j) < 15"
    using default_window_76 window_open_iff[of 15 0 76] by simp
  have "\<not> (\<forall>j<77. float_value (waited_after j) < 15)"
    using default_window_77 window_open_iff[of 15 0 77] by simp
  then obtain j where j: "j < 77" "\<not> float_value (waited_after j) < 15" by blast
  with a have "\<not> j < 76" by blast
  with j have "j = 76" by simp
  with j a show ?thesis by simp
qed

lemma poll_interval_is_nearest:
  "\<bar>float_value poll_interval - 1 / 5\<bar> < 1 / 2 ^ 56"
  by (simp add: float_value_def poll_interval_def)

text \<open>
  C3. In every iteration the probe tries the ports 5000, 8000, 8080, 3000, 8501 in this
  order and the run returns the URL of the first one found open in that iteration; when
  the process has exited before a port opened the result is the failure
  "Server exited unexpectedly", and when the window (15 seconds by default, one poll
  every 0.2 seconds) has elapsed with no port open it is "Server did not start in time".
  Here \<open>k\<close> is the first iteration in which something happens, and the window has
  elapsed when the float sum of \<open>k\<close> sleeps is no longer below \<^verbatim>\<open>max_wait\<close>; for the
  default window that is after 76 polls.
\<close>

theorem run_web_server_probe:
  assumes spawned: "popen env = Returns p"
    and quiet: "\<forall>j<k. float_value (waited_after j) < max_wait \<and> startup_poll env j = None \<and>
                  (\<forall>r \<in> set default_ports. \<not> is_port_open (connect env j r))"
  shows "default_ports = [5000, 8000, 8080, 3000, 8501] \<and> default_max_wait = 15 \<and>
         \<bar>float_value poll_interval - 1 / 5\<bar> < 1 / 2 ^ 56 \<and>
         (\<forall>j<76. float_value (waited_after j) < default_max_wait) \<and>
         \<not> float_value (waited_after 76) < default_max_wait \<and>
         (float_value (waited_after k) < max_wait \<and> startup_poll env k = None \<and>
          default_ports = pre @ q # post \<and>
          (\<forall>r \<in> set pre. \<not> is_port_open (connect env k r)) \<and>
          is_port_open (connect env k q) \<longrightarrow>
            run_web_server env fp ob max_wait =
              Some (Inr \<lparr>si_success = True, si_error = None, si_process = p,
                         si_url = Some (''http://127.0.0.1:'' @ str_nat q),
                         si_output_lines = startup_lines env\<rparr>,
                    Spawn (abspath env fp) #
                      (if ob then [OpenBrowser (''http://127.0.0.1:'' @ str_nat q)] else []))) \<and>
         (float_value (waited_after k) < max_wait \<and> startup_poll env k \<noteq> None \<longrightarrow>
            run_web_server env fp ob max_wait =
              Some (Inr \<lparr>si_success = False, si_error = Some ''Server exited unexpectedly'',
                         si_process = p, si_url = None,
                         si_output_lines = startup_lines env\<rparr>,
                    [Spawn (abspath env fp)])) \<and>
         (\<not> float_value (waited_after k) < max_wait \<longrightarrow>
            run_web_server env fp ob max_wait =
              Some (Inr \<lparr>si_success = False, si_error = Some ''Server did not start in time'',
                         si_process = p, si_url = None,
                         si_output_lines = startup_lines env\<rparr>,
                    [Spawn (abspath env fp)]))"
proof -
  have skip: "wait_for_port env max_wait 0 0 =
              wait_for_port env max_wait (waited_after k) k"
  proof -
    have "wait_for_port env max_wait (waited_after 0) 0 =
          wait_for_port env max_wait (waited_after (0 + k)) (0 + k)"
    proof (rule wait_for_port_skip)
      fix j assume "j < k"
      then show "float_value (waited_after (0 + j)) < max_wait \<and>
                 startup_poll env (0 + j) = None \<and>
                 first_open_port (connect env (0 + j)) default_ports = None"
        using quiet by (simp add: first_open_port_None)
    qed
    then show ?thesis by simp
  qed
  have bound: "wait_for_port env max_wait 0 0 = Some (Bound q)"
    if "float_value (waited_after k) < max_wait" "startup_poll env k = None"
       "default_ports = pre @ q # post" "\<forall>r \<in> set pre. \<not> is_port_open (connect env k r)"
       "is_port_open (connect env k q)"
  proof -
    have "first_open_port (connect env k) default_ports = Some q"
      unfolding first_open_port_Some using that(3-5) by blast
    with that(1,2) show ?thesis
      unfolding skip by (intro wait_for_port_bound)
  qed
  have exited: "wait_for_port env max_wait 0 0 = Some ProcessExited"
    if "float_value (waited_after k) < max_wait" "startup_poll env k \<noteq> None"
    using that unfolding skip by (intro wait_for_port_exited)
  have elapsed: "wait_for_port env max_wait 0 0 = Some WindowElapsed"
    if "\<not> float_value (waited_after k) < max_wait"
    using that unfolding skip by (intro wait_for_port_done)
  have window: "(\<forall>j<76. float_value (waited_after j) < default_max_wait) \<and>
                \<not> float_value (waited_after 76) < default_max_wait"
    using default_window by (simp add: default_max_wait_def)
  have ports: "default_ports = [5000, 8000, 8080, 3000, 8501]" "default_max_wait = 15"
    by (simp_all add: default_ports_def default_max_wait_def)
  have runs: "(float_value (waited_after k) < max_wait \<and> startup_poll env k = None \<and>
          default_ports = pre @ q # post \<and>
          (\<forall>r \<in> set pre. \<not> is_port_open (connect env k r)) \<and>
          is_port_open (connect env k q) \<longrightarrow>
            run_web_server env fp ob max_wait =
              Some (Inr \<lparr>si_success = True, si_error = None, si_process = p,
                         si_url = Some (''http://127.0.0.1:'' @ str_nat q),
                         si_output_lines = startup_lines env\<rparr>,
                    Spawn (abspath env fp) #
                      (if ob then [OpenBrowser (''http://127.0.0.1:'' @ str_nat q)] else []))) \<and>
         (float_value (waited_after k) < max_wait \<and> startup_poll env k \<noteq> None \<longrightarrow>
            run_web_server env fp ob max_wait =
              Some (Inr \<lparr>si_success = False, si_error = Some ''Server exited unexpectedly'',
                         si_process = p, si_url = None,
                         si_output_lines = startup_lines env\<rparr>,
                    [Spawn (abspath env fp)])) \<and>
         (\<not> float_value (waited_after k) < max_wait \<longrightarrow>
            run_web_server env fp ob max_wait =
              Some (Inr \<lparr>si_success = False, si_error = Some ''Server did not start in time'',
                         si_process = p, si_url = None,
                         si_output_lines = startup_lines env\<rparr>,
                    [Spawn (abspath env fp)]))"
    using spawned bound exited elapsed
    by (auto simp: run_web_server_def server_url_of_def)
  from ports poll_interval_is_nearest window runs show ?thesis by blast
qed

theorem run_web_server_probe_witness:
  "run_web_server env_late_bind ''/srv/app/main.py'' False 15 =
     Some (Inr \<lparr>si_success = True, si_error = None, si_process = 10,
                si_url = Some ''http://127.0.0.1:8080'', si_output_lines = []\<rparr>,
           [Spawn ''/srv/app/main.py'']) \<and>
   run_web_server env_startup_exit ''/srv/app/main.py'' False 15 =
     Some (Inr \<lparr>si_success = False, si_error = Some ''Server exited unexpectedly'',
                si_process = 10, si_url = None, si_output_lines = []\<rparr>,
           [Spawn ''/srv/app/main.py'']) \<and>
   run_web_server env_never_binds ''/srv/app/main.py'' False 15 =
     Some (Inr \<lparr>si_success = False, si_error = Some ''Server did not start in time'',
                si_process = 10, si_url = None, si_output_lines = []\<rparr>,
           [Spawn ''/srv/app/main.py''])"
proof -
  have w: "float_value (waited_after j) < 15" if "j < 76" for j
    using default_window that by blast
  have w76: "\<not> float_value (waited_after 76) < 15"
    using default_window by blast
  have a: "run_web_server env_late_bind ''/srv/app/main.py'' False 15 =
     Some (Inr \<lparr>si_success = True, si_error = None, si_process = 10,
                si_url = Some ''http://127.0.0.1:8080'', si_output_lines = []\<rparr>,
           [Spawn ''/srv/app/main.py''])"
    using run_web_server_probe[where env = env_late_bind and p = 10 and k = 2
        and max_wait = 15 and pre = "[5000, 8000]" and q = 8080 and post = "[3000, 8501]"
        and fp = "''/srv/app/main.py''" and ob = False] w[of 2]
    by (simp add: w env_late_bind_def env_quiet_server_def default_ports_def
        default_max_wait_def str_nat.simps digit_char_def del: waited_after.simps)
  have b: "run_web_server env_startup_exit ''/srv/app/main.py'' False 15 =
     Some (Inr \<lparr>si_success = False, si_error = Some ''Server exited unexpectedly'',
                si_process = 10, si_url = None, si_output_lines = []\<rparr>,
           [Spawn ''/srv/app/main.py''])"
    using run_web_server_probe[where env = env_startup_exit and p = 10 and k = 1
        and max_wait = 15 and fp = "''/srv/app/main.py''" and ob = False] w[of 1] w[of 0]
    by (simp add: env_startup_exit_def env_quiet_server_def default_ports_def
        default_max_wait_def del: waited_after.simps One_nat_def)
  have c: "run_web_server env_never_binds ''/srv/app/main.py'' False 15 =
     Some (Inr \<lparr>si_success = False, si_error = Some ''Server did not start in time'',
                si_process = 10, si_url = None, si_output_lines = []\<rparr>,
           [Spawn ''/srv/app/main.py''])"
    using run_web_server_probe[where env = env_never_binds and p = 10 and k = 76
        and max_wait = 15 and fp = "''/srv/app/main.py''" and ob = False] w76
    by (simp add: w env_never_binds_def env_quiet_server_def default_ports_def
        default_max_wait_def del: waited_after.simps)
  from a b c show ?thesis by blast
qed

section \<open>The service loop\<close>

lemma run_web_server_cases:
  assumes "run_web_server env mp ob mw = Some (Inr si, tr0)"
  shows "popen env = Returns (si_process si) \<and> si_output_lines si = startup_lines env \<and>
         list_all (\<lambda>e. \<not> is_signal e) tr0"
  using assms
  by (auto simp: run_web_server_def Let_def
      split: outcome.splits option.splits startup.splits if_splits)

lemma run_main_web_app_no_startup:
  "run_web_server env mp ob default_max_wait = None \<Longrightarrow> run_main_web_app env mp ob rt c = None"
  by (simp add: run_main_web_app_def)

lemma run_main_web_app_running:
  assumes "run_web_server env mp ob default_max_wait = Some (Inr si, tr0)" and "si_success si"
  shows "run_main_web_app env mp ob rt c =
         web_poll_loop env rt (si_process si) 0 (web_start c si tr0)"
  using assms by (simp add: run_main_web_app_def web_start_def Let_def)

lemma run_main_web_app_not_started:
  assumes "run_web_server env mp ob default_max_wait = Some (Inr si, tr0)" and "\<not> si_success si"
  shows "run_main_web_app env mp ob rt c =
         Some (Inr (False, startup_failure_site si),
               (ws_container (web_start c si tr0))
                 \<lparr>server_error := Some (case si_error si of
                                          None \<Rightarrow> ''failed to run web server'' | Some m \<Rightarrow> m)\<rparr>,
               tr0)"
  using assms by (simp add: run_main_web_app_def web_start_def Let_def)

lemma web_tick_Continue:
  "web_tick env rt p k s = Continue s' \<longleftrightarrow>
   scan_new_lines (fst (drain env k (ws_output_lines s, ws_last_len s))) = None \<and>
   poll env k = Returns None \<and> \<not> timed_out rt (clock env k) \<and>
   s' = s\<lparr>ws_output_lines := fst (snd (drain env k (ws_output_lines s, ws_last_len s))),
          ws_last_len := snd (snd (drain env k (ws_output_lines s, ws_last_len s)))\<rparr>"
  by (auto simp: web_tick_def split: prod.splits option.splits outcome.splits)

lemma web_run_invariant:
  "web_run env rt p k s n = Some s' \<Longrightarrow>
   ws_container s' = ws_container s \<and> ws_trace s' = ws_trace s \<and>
   (ws_output_lines s', ws_last_len s') = cursor_from env k (ws_output_lines s, ws_last_len s) n"
proof (induction n arbitrary: k s)
  case 0
  then show ?case by simp
next
  case (Suc n)
  then obtain s1 where c: "web_tick env rt p k s = Continue s1"
    and r: "web_run env rt p (Suc k) s1 n = Some s'"
    by (auto split: step.splits)
  from c have s1: "s1 = s\<lparr>ws_output_lines := fst (snd (drain env k (ws_output_lines s, ws_last_len s))),
          ws_last_len := snd (snd (drain env k (ws_output_lines s, ws_last_len s)))\<rparr>"
    by (simp add: web_tick_Continue)
  from Suc.IH[OF r] show ?case by (simp add: s1)
qed

lemma web_run_quiet:
  assumes "\<And>j. j < n \<Longrightarrow>
             scan_new_lines (batch_at env k (ws_output_lines s, ws_last_len s) j) = None \<and>
             poll env (k + j) = Returns None \<and> \<not> timed_out rt (clock env (k + j))"
  shows "\<exists>s'. web_run env rt p k s n = Some s'"
  using assms
proof (induction n arbitrary: k s)
  case 0
  then show ?case by simp
next
  case (Suc n)
  let ?s1 = "s\<lparr>ws_output_lines := fst (snd (drain env k (ws_output_lines s, ws_last_len s))),
          ws_last_len := snd (snd (drain env k (ws_output_lines s, ws_last_len s)))\<rparr>"
  have c: "web_tick env rt p k s = Continue ?s1"
    using Suc.prems[of 0] by (simp add: web_tick_Continue batch_at_def)
  have "\<exists>s'. web_run env rt p (Suc k) ?s1 n = Some s'"
  proof (rule Suc.IH)
    fix j assume "j < n"
    then show "scan_new_lines (batch_at env (Suc k) (ws_output_lines ?s1, ws_last_len ?s1) j) = None \<and>
             poll env (Suc k + j) = Returns None \<and> \<not> timed_out rt (clock env (Suc k + j))"
      using Suc.prems[of "Suc j"] by (simp add: batch_at_def)
  qed
  with c show ?case by simp
qed

lemma web_run_batch:
  assumes "web_run env rt p k s n = Some s'"
  shows "fst (drain env (k + n) (ws_output_lines s', ws_last_len s')) =
         batch_at env k (ws_output_lines s, ws_last_len s) n"
  using web_run_invariant[OF assms] by (simp add: batch_at_def)

lemma scan_new_lines_None:
  "scan_new_lines ls = None \<longleftrightarrow> list_all (\<lambda>l. \<not> has_marker l) ls"
  by (induction ls) auto

lemma scan_new_lines_Some:
  "scan_new_lines ls = Some tb \<longleftrightarrow>
   (\<exists>pre l post. ls = pre @ l # post \<and> list_all (\<lambda>x. \<not> has_marker x) pre \<and> has_marker l \<and>
      tb = join_lines (l # post))"
proof (induction ls)
  case Nil
  then show ?case by simp
next
  case (Cons a ls)
  show ?case
  proof (cases "has_marker a")
    case True
    have "(\<exists>pre l post. a # ls = pre @ l # post \<and> list_all (\<lambda>x. \<not> has_marker x) pre \<and>
             has_marker l \<and> tb = join_lines (l # post)) \<longleftrightarrow> tb = join_lines (a # ls)"
      (is "?L \<longleftrightarrow> ?R")
    proof
      assume ?L
      then obtain pre l post where *: "a # ls = pre @ l # post"
        "list_all (\<lambda>x. \<not> has_marker x) pre" "tb = join_lines (l # post)"
        by blast
      show ?R
      proof (cases pre)
        case Nil
        with * show ?thesis by simp
      next
        case (Cons b pre')
        with * True show ?thesis by simp
      qed
    next
      assume ?R
      with True have "a # ls = [] @ a # ls \<and> list_all (\<lambda>x. \<not> has_marker x) [] \<and>
             has_marker a \<and> tb = join_lines (a # ls)" by simp
      then show ?L by blast
    qed
    with True show ?thesis by auto
  next
    case False
    have "(\<exists>pre l post. a # ls = pre @ l # post \<and> list_all (\<lambda>x. \<not> has_marker x) pre \<and>
             has_marker l \<and> tb = join_lines (l # post)) \<longleftrightarrow>
          (\<exists>pre l post. ls = pre @ l # post \<and> list_all (\<lambda>x. \<not> has_marker x) pre \<and>
             has_marker l \<and> tb = join_lines (l # post))"
      (is "?L \<longleftrightarrow> ?R")
    proof
      assume ?L
      then obtain pre l post where *: "a # ls = pre @ l # post"
        "list_all (\<lambda>x. \<not> has_marker x) pre" "has_marker l" "tb = join_lines (l # post)"
        by blast
      show ?R
      proof (cases pre)
        case Nil
        with * False show ?thesis by simp
      next
        case (Cons b pre')
        with * have "ls = pre' @ l # post \<and> list_all (\<lambda>x. \<not> has_marker x) pre' \<and>
             has_marker l \<and> tb = join_lines (l # post)" by simp
        then show ?thesis by blast
      qed
    next
      assume ?R
      then obtain pre l post where *: "ls = pre @ l # post"
        "list_all (\<lambda>x. \<not> has_marker x) pre" "has_marker l" "tb = join_lines (l # post)"
        by blast
      with False have "a # ls = (a # pre) @ l # post \<and> list_all (\<lambda>x. \<not> has_marker x) (a # pre) \<and>
             has_marker l \<and> tb = join_lines (l # post)" by simp
      then show ?L by blast
    qed
    with False Cons.IH show ?thesis by simp
  qed
qed


lemma web_tick_timeout:
  assumes "scan_new_lines (fst (drain env k (ws_output_lines s, ws_last_len s))) = None"
    and "poll env k = Returns None" and "timed_out rt (clock env k)"
    and "kill_process_tree (psutil env) p (ws_trace s) = (None, tr)"
  shows "web_tick env rt p k s = Stop (Inr (True, TimedOutStopped), ws_container s, tr)"
proof (cases "drain env k (ws_output_lines s, ws_last_len s)")
  case (fields new_lines output_lines' last_len')
  with assms show ?thesis by (simp add: web_tick_def)
qed

lemma web_tick_crash:
  assumes "scan_new_lines (fst (drain env k (ws_output_lines s, ws_last_len s))) = Some tb"
    and "kill_process_tree (psutil env) p (ws_trace s) = (None, tr)"
  shows "web_tick env rt p k s =
         Stop (Inr (False, CrashDetected), (ws_container s)\<lparr>server_error := Some tb\<rparr>, tr)"
proof (cases "drain env k (ws_output_lines s, ws_last_len s)")
  case (fields new_lines output_lines' last_len')
  with assms show ?thesis by (simp add: web_tick_def)
qed

lemma web_tick_raises:
  assumes "scan_new_lines (fst (drain env k (ws_output_lines s, ws_last_len s))) = None"
    and "poll env k = Raises e"
  shows "web_tick env rt p k s = Stop (web_except env p e (ws_container s) (ws_trace s))"
proof (cases "drain env k (ws_output_lines s, ws_last_len s)")
  case (fields new_lines output_lines' last_len')
  with assms show ?thesis by (simp add: web_tick_def)
qed

lemma web_tick_exited:
  assumes "scan_new_lines (fst (drain env k (ws_output_lines s, ws_last_len s))) = None"
    and "poll env k = Returns (Some code)"
  shows "web_tick env rt p k s =
         Stop (Inr (False, UnexpectedExit),
               (if server_error (ws_container s) = None
                then (ws_container s)\<lparr>server_error := Some ''Web server stopped unexpectedly''\<rparr>
                else ws_container s),
               ws_trace s)"
proof (cases "drain env k (ws_output_lines s, ws_last_len s)")
  case (fields new_lines output_lines' last_len')
  with assms show ?thesis by (simp add: web_tick_def)
qed

lemma web_timeout_run:
  assumes nz: "t \<noteq> 0"
    and quiet: "\<And>j. j \<le> n \<Longrightarrow> poll env j = Returns None \<and>
                  list_all (\<lambda>l. \<not> has_marker l) (batch_at env 0 (ws_output_lines s, ws_last_len s) j)"
    and early: "\<And>j. j < n \<Longrightarrow> \<not> of_int t < clock env j"
    and late: "of_int t < clock env n"
    and kill: "kill_process_tree (psutil env) p (ws_trace s) = (None, tr)"
  shows "web_poll_loop env (Some t) p 0 s = Some (Inr (True, TimedOutStopped), ws_container s, tr)"
proof -
  have "\<exists>s'. web_run env (Some t) p 0 s n = Some s'"
  proof (rule web_run_quiet)
    fix j assume "j < n"
    then show "scan_new_lines (batch_at env 0 (ws_output_lines s, ws_last_len s) j) = None \<and>
               poll env (0 + j) = Returns None \<and> \<not> timed_out (Some t) (clock env (0 + j))"
      using quiet[of j] early[of j] by (simp add: scan_new_lines_None)
  qed
  then obtain s' where run: "web_run env (Some t) p 0 s n = Some s'" ..
  have inv: "ws_container s' = ws_container s" "ws_trace s' = ws_trace s"
    using web_run_invariant[OF run] by simp_all
  have "scan_new_lines (fst (drain env n (ws_output_lines s', ws_last_len s'))) = None"
    using web_run_batch[OF run] quiet[of n] by (simp add: scan_new_lines_None)
  moreover have "poll env n = Returns None" using quiet[of n] by simp
  moreover have "timed_out (Some t) (clock env n)" using nz late by simp
  ultimately have "web_tick env (Some t) p (0 + n) s' =
                   Stop (Inr (True, TimedOutStopped), ws_container s, tr)"
    using kill web_tick_timeout[where env = env and k = n and s = s' and p = p and rt = "Some t" and tr = tr] by (simp add: inv)
  with run show ?thesis by (rule web_loop_from_run)
qed

lemma web_start_simps:
  "ws_output_lines (web_start c si tr0) = si_output_lines si"
  "ws_last_len (web_start c si tr0) = 0"
  "ws_trace (web_start c si tr0) = tr0"
  "server_process (ws_container (web_start c si tr0)) = Some (si_process si)"
  "server_error (ws_container (web_start c si tr0)) =
     (case c of None \<Rightarrow> None | Some c' \<Rightarrow> server_error c')"
  by (simp_all add: web_start_def empty_container_def split: option.splits)

text \<open>
  A service run with a set (non-zero) timeout, in which no drained batch holds the crash
  marker and the process has not exited up to tick \<open>k\<close>, the first tick whose clock
  reading exceeds the timeout: when the terminator raises nothing the run returns
  \<^verbatim>\<open>True\<close> with the trace the terminator leaves, and when every lookup succeeds
  the terminator has signalled all descendants and then the root.
\<close>

lemma web_timeout_success:
  assumes started: "run_web_server env mp ob default_max_wait = Some (Inr si, tr0)" "si_success si"
    and nz: "t \<noteq> 0"
    and quiet: "\<forall>j\<le>k. poll env j = Returns None \<and>
                  list_all (\<lambda>l. \<not> has_marker l) (new_lines_at env j)"
    and early: "\<forall>j<k. \<not> of_int t < clock env j"
    and late: "of_int t < clock env k"
    and kill: "fst (kill_process_tree (psutil env) (si_process si) tr0) = None"
  shows "run_main_web_app env mp ob (Some t) c =
           Some (Inr (True, TimedOutStopped), ws_container (web_start c si tr0),
                 snd (kill_process_tree (psutil env) (si_process si) tr0)) \<and>
         (process_lookup (psutil env) = None \<and> children_recursive (psutil env) = Inr cs \<and>
          (\<forall>q \<in> set (si_process si # cs). terminate_result (psutil env) q = None) \<longrightarrow>
            snd (kill_process_tree (psutil env) (si_process si) tr0) =
              tr0 @ map Terminate cs @ [Terminate (si_process si)])"
proof -
  let ?s = "web_start c si tr0"
  have lines: "si_output_lines si = startup_lines env"
    using run_web_server_cases[OF started(1)] by simp
  have "web_poll_loop env (Some t) (si_process si) 0 ?s =
          Some (Inr (True, TimedOutStopped), ws_container ?s,
                snd (kill_process_tree (psutil env) (si_process si) tr0))"
  proof (rule web_timeout_run[OF nz])
    fix j assume "j \<le> k"
    then show "poll env j = Returns None \<and>
      list_all (\<lambda>l. \<not> has_marker l) (batch_at env 0 (ws_output_lines ?s, ws_last_len ?s) j)"
      using quiet by (simp add: web_start_simps lines new_lines_at_def)
  next
    fix j assume "j < k"
    then show "\<not> of_int t < clock env j" using early by simp
  next
    show "of_int t < clock env k" by (rule late)
  next
    show "kill_process_tree (psutil env) (si_process si) (ws_trace ?s) =
          (None, snd (kill_process_tree (psutil env) (si_process si) tr0))"
      using kill by (simp add: web_start_simps prod_eq_iff)
  qed
  then have "run_main_web_app env mp ob (Some t) c =
           Some (Inr (True, TimedOutStopped), ws_container ?s,
                 snd (kill_process_tree (psutil env) (si_process si) tr0))"
    by (simp add: run_main_web_app_running[OF started])
  moreover have "snd (kill_process_tree (psutil env) (si_process si) tr0) =
              tr0 @ map Terminate cs @ [Terminate (si_process si)]"
    if "process_lookup (psutil env) = None" "children_recursive (psutil env) = Inr cs"
       "\<forall>q \<in> set (si_process si # cs). terminate_result (psutil env) q = None"
    using kill_process_tree_all_sent[OF that(1,2), of "si_process si" tr0] that(3) by simp
  ultimately show ?thesis by blast
qed

lemma run_web_server_bound_at_once:
  assumes "popen env = Returns p" and "startup_poll env 0 = None"
    and "first_open_port (connect env 0) default_ports = Some q" and "0 < mw"
  shows "run_web_server env fp ob mw =
         Some (Inr \<lparr>si_success = True, si_error = None, si_process = p,
               si_url = Some (server_url_of q), si_output_lines = startup_lines env\<rparr>,
          Spawn (abspath env fp) # (if ob then [OpenBrowser (server_url_of q)] else []))"
proof -
  have "wait_for_port env mw 0 0 = Some (Bound q)"
    using assms by (intro wait_for_port_bound) (simp_all add: float_value_def)
  then show ?thesis using assms(1) by (simp add: run_web_server_def)
qed

lemma cursor_from_silent:
  assumes "appended env = (\<lambda>k. [])" and "raced env = (\<lambda>k. [])"
  shows "cursor_from env k (ls, m) n = (if n = 0 then (ls, m) else (ls, length ls))"
  using assms by (induction n arbitrary: k m) (simp_all add: drain_def)

lemma new_lines_at_silent:
  assumes "appended env = (\<lambda>k. [])" and "raced env = (\<lambda>k. [])" and "startup_lines env = []"
  shows "new_lines_at env j = []"
  using assms by (simp add: new_lines_at_def batch_at_def cursor_from_silent drain_def)

lemma run_web_server_quiet_server:
  "run_web_server env_quiet_server fp False default_max_wait =
     Some (Inr \<lparr>si_success = True, si_error = None, si_process = 10,
           si_url = Some ''http://127.0.0.1:8000'', si_output_lines = []\<rparr>, [Spawn fp])"
proof -
  have "run_web_server env_quiet_server fp False default_max_wait =
         Some (Inr \<lparr>si_success = True, si_error = None, si_process = 10,
               si_url = Some (server_url_of 8000),
               si_output_lines = startup_lines env_quiet_server\<rparr>,
          Spawn (abspath env_quiet_server fp) #
            (if False then [OpenBrowser (server_url_of 8000)] else []))"
    by (rule run_web_server_bound_at_once)
       (simp_all add: env_quiet_server_def default_ports_def default_max_wait_def)
  then show ?thesis
    by (simp add: env_quiet_server_def server_url_of_def str_nat.simps digit_char_def)
qed

lemma run_web_server_child_gone:
  "run_web_server env_child_gone fp False default_max_wait =
     Some (Inr \<lparr>si_success = True, si_error = None, si_process = 10,
                si_url = Some ''http://127.0.0.1:8000'', si_output_lines = []\<rparr>, [Spawn fp])"
proof -
  have "run_web_server env_child_gone fp False default_max_wait =
         Some (Inr \<lparr>si_success = True, si_error = None, si_process = 10,
                    si_url = Some (server_url_of 8000),
                    si_output_lines = startup_lines env_child_gone\<rparr>,
               Spawn (abspath env_child_gone fp) #
                 (if False then [OpenBrowser (server_url_of 8000)] else []))"
    by (rule run_web_server_bound_at_once)
       (simp_all add: env_child_gone_def env_quiet_server_def default_ports_def
          default_max_wait_def)
  then show ?thesis
    by (simp add: env_child_gone_def env_quiet_server_def server_url_of_def
        str_nat.simps digit_char_def)
qed

text \<open>
  C4. The claim: a service run with a set timeout, with no crash marker and no process
  exit before, terminates the process tree and returns \<^verbatim>\<open>True\<close> once the elapsed time
  exceeds the timeout. Evaluated on a server with the descendants 11 and 12 that prints
  nothing and does not exit, with a timeout of 5 seconds and a clock that reads \<open>k\<close>
  seconds in tick \<open>k\<close>, so that the timeout is not exceeded in tick 5 and is in tick 6;
  descendant 11 has exited when the terminator signals it. The run returns \<^verbatim>\<open>True\<close>
  through the timeout branch, and neither descendant 12 nor the root 10 has been sent a
  signal.
\<close>

theorem timeout_success_without_termination:
  "run_main_web_app env_child_gone ''/srv/app/main.py'' False (Some 5) None =
     Some (Inr (True, TimedOutStopped),
           \<lparr>server_process = Some 10, server_output = [],
            server_url = Some ''http://127.0.0.1:8000'', server_error = None\<rparr>,
           [Spawn ''/srv/app/main.py'']) \<and>
   \<not> timed_out (Some 5) (clock env_child_gone 5) \<and>
   timed_out (Some 5) (clock env_child_gone 6) \<and>
   children_recursive (psutil env_child_gone) = Inr [11, 12] \<and>
   \<not> signalled [Spawn ''/srv/app/main.py''] 10 \<and>
   \<not> signalled [Spawn ''/srv/app/main.py''] 12"
proof -
  have nl: "new_lines_at env_child_gone j = []" for j
    by (rule new_lines_at_silent) (simp_all add: env_child_gone_def env_quiet_server_def)
  have kill: "kill_process_tree psutil_child_gone 10 [Spawn ''/srv/app/main.py''] =
              (None, [Spawn ''/srv/app/main.py''])"
    by (simp add: kill_process_tree_def kill_process_tree_try_def psutil_child_gone_def)
  have ps: "psutil env_child_gone = psutil_child_gone"
    "poll env_child_gone = (\<lambda>k. Returns None)" "clock env_child_gone = of_nat"
    by (simp_all add: env_child_gone_def env_quiet_server_def)
  have "run_main_web_app env_child_gone ''/srv/app/main.py'' False (Some 5) None =
     Some (Inr (True, TimedOutStopped),
           \<lparr>server_process = Some 10, server_output = [],
            server_url = Some ''http://127.0.0.1:8000'', server_error = None\<rparr>,
           [Spawn ''/srv/app/main.py''])"
    using web_timeout_success[where env = env_child_gone
        and mp = "''/srv/app/main.py''" and ob = False and t = 5 and k = 6 and c = None
        and cs = "[11, 12]", OF run_web_server_child_gone]
    by (simp add: nl kill ps web_start_def empty_container_def)
  moreover have "\<not> timed_out (Some 5) (clock env_child_gone 5)"
    "timed_out (Some 5) (clock env_child_gone 6)"
    by (simp_all add: ps)
  moreover have "children_recursive (psutil env_child_gone) = Inr [11, 12]"
    by (simp add: ps psutil_child_gone_def)
  moreover have "\<not> signalled [Spawn ''/srv/app/main.py''] 10"
    "\<not> signalled [Spawn ''/srv/app/main.py''] 12"
    by (simp_all add: signalled_def)
  ultimately show ?thesis by simp
qed

lemma web_timeout_success_quiet_server:
  "run_main_web_app env_quiet_server ''/srv/app/main.py'' False (Some 5) None =
     Some (Inr (True, TimedOutStopped),
           \<lparr>server_process = Some 10, server_output = [],
            server_url = Some ''http://127.0.0.1:8000'', server_error = None\<rparr>,
           [Spawn ''/srv/app/main.py'', Terminate 11, Terminate 12, Terminate 10])"
proof -
  have nl: "new_lines_at env_quiet_server j = []" for j
    by (rule new_lines_at_silent) (simp_all add: env_quiet_server_def)
  have kill: "kill_process_tree psutil_ok 10 [Spawn ''/srv/app/main.py''] =
              (None, [Spawn ''/srv/app/main.py'', Terminate 11, Terminate 12, Terminate 10])"
    by (simp add: kill_process_tree_def kill_process_tree_try_def psutil_ok_def)
  have ps: "psutil env_quiet_server = psutil_ok" "poll env_quiet_server = (\<lambda>k. Returns None)"
    "clock env_quiet_server = of_nat"
    by (simp_all add: env_quiet_server_def)
  show ?thesis
    using web_timeout_success[where env = env_quiet_server
        and mp = "''/srv/app/main.py''" and ob = False and t = 5 and k = 6 and c = None
        and cs = "[11, 12]", OF run_web_server_quiet_server]
    by (simp add: nl kill ps web_start_def empty_container_def)
qed


section \<open>A timeout of zero\<close>

lemma timed_out_zero: "timed_out (Some 0) = timed_out None"
  by (rule ext) simp

lemma web_tick_zero: "web_tick env (Some 0) p k s = web_tick env None p k s"
  unfolding web_tick_def timed_out_zero ..

lemma console_tick_zero: "console_tick env (Some 0) p a k tr = console_tick env None p a k tr"
  unfolding console_tick_def timed_out_zero by (simp split: outcome.splits option.splits)

lemma web_run_zero: "web_run env (Some 0) p k s n = web_run env None p k s n"
  by (induction n arbitrary: k s) (simp_all add: web_tick_zero split: step.splits)

lemma console_run_zero: "console_run env (Some 0) p a k tr n = console_run env None p a k tr n"
  by (induction n arbitrary: k tr) (simp_all add: console_tick_zero split: step.splits)

lemma option_eqI: "(\<And>r. x = Some r \<longleftrightarrow> y = Some r) \<Longrightarrow> x = y"
  by (cases x; cases y) auto

lemma web_poll_loop_zero:
  "web_poll_loop env (Some 0) p k s = web_poll_loop env None p k s"
proof (rule option_eqI)
  fix r
  show "web_poll_loop env (Some 0) p k s = Some r \<longleftrightarrow> web_poll_loop env None p k s = Some r"
  proof
    assume "web_poll_loop env (Some 0) p k s = Some r"
    then obtain n s' where "web_run env (Some 0) p k s n = Some s'"
      "web_tick env (Some 0) p (k + n) s' = Stop r"
      using web_loop_to_run by blast
    then show "web_poll_loop env None p k s = Some r"
      by (intro web_loop_from_run[where n = n and s' = s']) (simp_all add: web_run_zero web_tick_zero)
  next
    assume "web_poll_loop env None p k s = Some r"
    then obtain n s' where "web_run env None p k s n = Some s'"
      "web_tick env None p (k + n) s' = Stop r"
      using web_loop_to_run by blast
    then show "web_poll_loop env (Some 0) p k s = Some r"
      by (intro web_loop_from_run[where n = n and s' = s']) (simp_all add: web_run_zero web_tick_zero)
  qed
qed

lemma console_poll_loop_zero:
  "console_poll_loop env (Some 0) p a k tr = console_poll_loop env None p a k tr"
proof (rule option_eqI)
  fix r
  show "console_poll_loop env (Some 0) p a k tr = Some r \<longleftrightarrow>
        console_poll_loop env None p a k tr = Some r"
  proof
    assume "console_poll_loop env (Some 0) p a k tr = Some r"
    then obtain n tr' where "console_run env (Some 0) p a k tr n = Some tr'"
      "console_tick env (Some 0) p a (k + n) tr' = Stop r"
      using console_loop_to_run by blast
    then show "console_poll_loop env None p a k tr = Some r"
      by (intro console_loop_from_run[where n = n and tr' = tr'])
         (simp_all add: console_run_zero console_tick_zero)
  next
    assume "console_poll_loop env None p a k tr = Some r"
    then obtain n tr' where "console_run env None p a k tr n = Some tr'"
      "console_tick env None p a (k + n) tr' = Stop r"
      using console_loop_to_run by blast
    then show "console_poll_loop env (Some 0) p a k tr = Some r"
      by (intro console_loop_from_run[where n = n and tr' = tr'])
         (simp_all add: console_run_zero console_tick_zero)
  qed
qed

lemma web_except_not_timeout:
  "web_except env p e rc tr \<noteq> (Inr (True, TimedOutStopped), rc', tr')"
  by (auto simp: web_except_def split: exn.splits option.splits prod.splits)

lemma web_tick_no_timeout:
  "web_tick env None p k s \<noteq> Stop (Inr (True, TimedOutStopped), rc, tr)"
proof (cases "drain env k (ws_output_lines s, ws_last_len s)")
  case (fields new_lines output_lines' last_len')
  then show ?thesis
    by (auto simp: web_tick_def web_except_not_timeout
        split: option.splits prod.splits outcome.splits)
qed

text \<open>
  C10. With \<^verbatim>\<open>run_timeout = 0\<close> both \<^verbatim>\<open>run_main_web_app\<close> and
  \<^verbatim>\<open>run_main_as_console_app\<close> do exactly what they do with no timeout at all, and the
  timeout branch of the service loop is never the one that returns.
\<close>

theorem zero_timeout_is_no_timeout:
  "run_main_web_app env mp ob (Some 0) c = run_main_web_app env mp ob None c \<and>
   run_main_as_console_app env mp (Some 0) = run_main_as_console_app env mp None \<and>
   \<not> (\<exists>rc tr. run_main_web_app env mp ob (Some 0) c =
                 Some (Inr (True, TimedOutStopped), rc, tr))"
proof -
  have web: "run_main_web_app env mp ob (Some 0) c = run_main_web_app env mp ob None c"
    unfolding run_main_web_app_def web_poll_loop_zero ..
  have console: "run_main_as_console_app env mp (Some 0) = run_main_as_console_app env mp None"
    unfolding run_main_as_console_app_def console_poll_loop_zero ..
  have "run_main_web_app env mp ob None c \<noteq> Some (Inr (True, TimedOutStopped), rc, tr)" for rc tr
  proof
    assume run: "run_main_web_app env mp ob None c = Some (Inr (True, TimedOutStopped), rc, tr)"
    then have "run_web_server env mp ob default_max_wait \<noteq> None"
      using run_main_web_app_no_startup[of env mp ob] by fastforce
    then obtain res tr0 where rws: "run_web_server env mp ob default_max_wait = Some (res, tr0)"
      by (cases "run_web_server env mp ob default_max_wait") auto
    show False
    proof (cases res)
      case (Inl e)
      with run rws show False by (simp add: run_main_web_app_def)
    next
      case (Inr si)
      show False
      proof (cases "si_success si")
        case False
        with run rws Inr show False
          using run_main_web_app_not_started[of env mp ob si tr0 None c] by simp
      next
        case True
        with run rws Inr have "web_poll_loop env None (si_process si) 0 (web_start c si tr0) =
            Some (Inr (True, TimedOutStopped), rc, tr)"
          using run_main_web_app_running[of env mp ob si tr0 None c] by simp
        then show False
          using web_loop_to_run web_tick_no_timeout by blast
      qed
    qed
  qed
  with web console show ?thesis by simp
qed



section \<open>Failed service runs\<close>

lemma web_except_not_failure:
  "web_except env p e rc tr \<noteq> (Inr (False, site), rc', tr')"
  by (auto simp: web_except_def split: exn.splits option.splits prod.splits)

lemma web_tick_failure:
  "web_tick env rt p k s = Stop (Inr (False, site), rc, tr) \<longleftrightarrow>
     (\<exists>tb. scan_new_lines (fst (drain env k (ws_output_lines s, ws_last_len s))) = Some tb \<and>
           kill_process_tree (psutil env) p (ws_trace s) = (None, tr) \<and>
           site = CrashDetected \<and> rc = (ws_container s)\<lparr>server_error := Some tb\<rparr>) \<or>
     (scan_new_lines (fst (drain env k (ws_output_lines s, ws_last_len s))) = None \<and>
      (\<exists>code. poll env k = Returns (Some code)) \<and> site = UnexpectedExit \<and> tr = ws_trace s \<and>
      rc = (if server_error (ws_container s) = None
            then (ws_container s)\<lparr>server_error := Some ''Web server stopped unexpectedly''\<rparr>
            else ws_container s))"
proof (cases "drain env k (ws_output_lines s, ws_last_len s)")
  case (fields new_lines output_lines' last_len')
  then show ?thesis
    by (auto simp: web_tick_def web_except_not_failure
        split: option.splits prod.splits outcome.splits)
qed

lemma web_run_conditions:
  assumes "web_run env rt p k s n = Some s'" and "j < n"
  shows "scan_new_lines (batch_at env k (ws_output_lines s, ws_last_len s) j) = None \<and>
         poll env (k + j) = Returns None \<and> \<not> timed_out rt (clock env (k + j))"
  using assms
proof (induction n arbitrary: k s j)
  case 0
  then show ?case by simp
next
  case (Suc n)
  then obtain s1 where c: "web_tick env rt p k s = Continue s1"
    and r: "web_run env rt p (Suc k) s1 n = Some s'"
    by (auto split: step.splits)
  note c' = c[unfolded web_tick_Continue]
  show ?case
  proof (cases j)
    case 0
    with c' show ?thesis by (simp add: batch_at_def)
  next
    case (Suc i)
    with Suc.prems have "i < n" by simp
    from Suc.IH[OF r this] c' Suc show ?thesis by (simp add: batch_at_def)
  qed
qed


lemma startup_failure_site_cases:
  "startup_failure_site si = ServerNeverBound \<or> startup_failure_site si = ServerStartTimeout"
  by (simp add: startup_failure_site_def)

text \<open>
  C1, as the code has it. A service run that returns \<^verbatim>\<open>False\<close> has called the tree
  terminator before returning only when the failure is the crash marker. A run that
  fails because the server never bound a port (it exited, or the window elapsed) or
  because the process was found exited in the loop has sent no signal to any process:
  it returns with the child's handle in \<^verbatim>\<open>result_container["server_process"]\<close>.
\<close>

theorem web_failure_signals:
  assumes "run_main_web_app env mp ob rt c = Some (Inr (False, site), rc, tr)"
  shows "\<exists>p tr0. popen env = Returns p \<and> server_process rc = Some p \<and>
           list_all (\<lambda>e. \<not> is_signal e) tr0 \<and>
           (site = CrashDetected \<longrightarrow> kill_process_tree (psutil env) p tr0 = (None, tr)) \<and>
           (site \<noteq> CrashDetected \<longrightarrow>
              tr = tr0 \<and>
              (site = ServerNeverBound \<or> site = ServerStartTimeout \<or> site = UnexpectedExit))"
proof -
  from assms have "run_web_server env mp ob default_max_wait \<noteq> None"
    using run_main_web_app_no_startup[of env mp ob] by fastforce
  then obtain res tr0 where rws: "run_web_server env mp ob default_max_wait = Some (res, tr0)"
    by (cases "run_web_server env mp ob default_max_wait") auto
  show ?thesis
  proof (cases res)
    case (Inl e)
    with assms rws show ?thesis by (simp add: run_main_web_app_def)
  next
    case (Inr si)
    with rws have rws': "run_web_server env mp ob default_max_wait = Some (Inr si, tr0)" by simp
    note facts = run_web_server_cases[OF rws']
    show ?thesis
    proof (cases "si_success si")
      case False
      from assms have "site = startup_failure_site si \<and> tr = tr0 \<and> server_process rc = Some (si_process si)"
        unfolding run_main_web_app_not_started[OF rws' False] by (auto simp: web_start_simps)
      with facts startup_failure_site_cases[of si] show ?thesis by auto
    next
      case True
      from assms have "web_poll_loop env rt (si_process si) 0 (web_start c si tr0) =
                       Some (Inr (False, site), rc, tr)"
        unfolding run_main_web_app_running[OF rws' True] .
      then obtain n s' where run: "web_run env rt (si_process si) 0 (web_start c si tr0) n = Some s'"
        and stop: "web_tick env rt (si_process si) (0 + n) s' = Stop (Inr (False, site), rc, tr)"
        using web_loop_to_run by blast
      have inv: "ws_container s' = ws_container (web_start c si tr0)" "ws_trace s' = tr0"
        using web_run_invariant[OF run] by (simp_all add: web_start_simps)
      from stop[unfolded web_tick_failure] inv
      have "server_process rc = Some (si_process si) \<and>
            (site = CrashDetected \<longrightarrow> kill_process_tree (psutil env) (si_process si) tr0 = (None, tr)) \<and>
            (site \<noteq> CrashDetected \<longrightarrow> tr = tr0 \<and> site = UnexpectedExit)"
        by (auto simp: web_start_simps)
      with facts show ?thesis by blast
    qed
  qed
qed

lemma run_web_server_never_binds:
  "run_web_server env_never_binds fp False default_max_wait =
     Some (Inr \<lparr>si_success = False, si_error = Some ''Server did not start in time'',
           si_process = 10, si_url = None, si_output_lines = []\<rparr>, [Spawn fp])"
proof -
  have "wait_for_port env_never_binds default_max_wait (waited_after 0) 0 =
        wait_for_port env_never_binds default_max_wait (waited_after (0 + 76)) (0 + 76)"
  proof (rule wait_for_port_skip)
    fix j :: nat assume "j < 76"
    then show "float_value (waited_after (0 + j)) < default_max_wait \<and>
               startup_poll env_never_binds (0 + j) = None \<and>
               first_open_port (connect env_never_binds (0 + j)) default_ports = None"
      using default_window
      by (simp add: default_max_wait_def env_never_binds_def env_quiet_server_def
          default_ports_def del: waited_after.simps)
  qed
  also have "\<dots> = Some WindowElapsed"
    using default_window
    by (intro wait_for_port_done) (simp add: default_max_wait_def del: waited_after.simps)
  finally have "wait_for_port env_never_binds default_max_wait 0 0 = Some WindowElapsed"
    by simp
  then show ?thesis
    by (simp add: run_web_server_def env_never_binds_def env_quiet_server_def)
qed

lemma run_main_web_app_never_binds:
  "run_main_web_app env_never_binds fp False None None =
     Some (Inr (False, ServerStartTimeout),
           \<lparr>server_process = Some 10, server_output = [], server_url = None,
            server_error = Some ''Server did not start in time''\<rparr>,
           [Spawn fp])"
  by (simp add: run_main_web_app_not_started[OF run_web_server_never_binds]
      startup_failure_site_def web_start_def empty_container_def)

text \<open>
  C1 as stated fails: a server that never binds a port and never exits. The run fails
  with "Server did not start in time" and no signal has been sent to the child.
\<close>

theorem start_timeout_leaves_process_running:
  "run_main_web_app env_never_binds ''/srv/app/main.py'' False None None =
     Some (Inr (False, ServerStartTimeout),
           \<lparr>server_process = Some 10, server_output = [], server_url = None,
            server_error = Some ''Server did not start in time''\<rparr>,
           [Spawn ''/srv/app/main.py'']) \<and>
   startup_poll env_never_binds 75 = None \<and>
   \<not> signalled [Spawn ''/srv/app/main.py''] 10"
proof -
  have "startup_poll env_never_binds 75 = None"
    by (simp add: env_never_binds_def env_quiet_server_def)
  moreover have "\<not> signalled [Spawn ''/srv/app/main.py''] 10"
    by (simp add: signalled_def)
  ultimately show ?thesis using run_main_web_app_never_binds by simp
qed

lemma web_crash_run:
  assumes started: "run_web_server env mp ob default_max_wait = Some (Inr si, tr0)" "si_success si"
    and quiet: "\<And>j. j < k \<Longrightarrow> list_all (\<lambda>x. \<not> has_marker x) (new_lines_at env j) \<and>
                   poll env j = Returns None \<and> \<not> timed_out rt (clock env j)"
    and split: "new_lines_at env k = pre @ l # post"
      "list_all (\<lambda>x. \<not> has_marker x) pre" "has_marker l"
    and kill: "kill_process_tree (psutil env) (si_process si) tr0 = (None, tr)"
  shows "run_main_web_app env mp ob rt c =
         Some (Inr (False, CrashDetected),
               (ws_container (web_start c si tr0))\<lparr>server_error := Some (join_lines (l # post))\<rparr>,
               tr)"
proof -
  let ?s = "web_start c si tr0"
  have lines: "si_output_lines si = startup_lines env"
    using run_web_server_cases[OF started(1)] by simp
  have st: "(ws_output_lines ?s, ws_last_len ?s) = (startup_lines env, 0)"
    by (simp add: web_start_simps lines)
  have "\<exists>s'. web_run env rt (si_process si) 0 ?s k = Some s'"
  proof (rule web_run_quiet)
    fix j assume "j < k"
    then show "scan_new_lines (batch_at env 0 (ws_output_lines ?s, ws_last_len ?s) j) = None \<and>
               poll env (0 + j) = Returns None \<and> \<not> timed_out rt (clock env (0 + j))"
      using quiet[of j] by (simp add: st new_lines_at_def scan_new_lines_None)
  qed
  then obtain s' where run: "web_run env rt (si_process si) 0 ?s k = Some s'" ..
  have inv: "ws_container s' = ws_container ?s" "ws_trace s' = tr0"
    using web_run_invariant[OF run] by (simp_all add: web_start_simps)
  have batch: "fst (drain env (0 + k) (ws_output_lines s', ws_last_len s')) = new_lines_at env k"
    using web_run_batch[OF run] by (simp add: st new_lines_at_def)
  have "scan_new_lines (new_lines_at env k) = Some (join_lines (l # post))"
    unfolding scan_new_lines_Some using split by blast
  then have "web_tick env rt (si_process si) (0 + k) s' =
             Stop (Inr (False, CrashDetected),
                   (ws_container ?s)\<lparr>server_error := Some (join_lines (l # post))\<rparr>, tr)"
    using web_tick_crash[where env = env and k = "0 + k" and s = s' and p = "si_process si"
        and tr = tr and rt = rt and tb = "join_lines (l # post)"] kill
    by (simp only: batch inv)
  with run have "web_poll_loop env rt (si_process si) 0 ?s =
                 Some (Inr (False, CrashDetected),
                       (ws_container ?s)\<lparr>server_error := Some (join_lines (l # post))\<rparr>, tr)"
    by (rule web_loop_from_run)
  then show ?thesis unfolding run_main_web_app_running[OF started] .
qed

text \<open>
  C2, as the code has it. Once the server has bound a port, the run returns
  \<^verbatim>\<open>False\<close> through the crash branch if and only if there is a tick \<open>k\<close> whose drained
  batch holds a line with the marker, no earlier tick left the loop, and the terminator
  raised nothing. The diagnostic stored under \<^verbatim>\<open>server_error\<close> is the first such line of
  that batch joined by newlines with the lines after it in the batch, and the terminator has
  run before the return. Only drained batches are scanned.
\<close>

theorem crash_detected_iff:
  assumes started: "run_web_server env mp ob default_max_wait = Some (Inr si, tr0)" "si_success si"
  shows "run_main_web_app env mp ob rt c = Some (Inr (False, CrashDetected), rc, tr) \<longleftrightarrow>
         (\<exists>k pre l post.
            (\<forall>j<k. list_all (\<lambda>x. \<not> has_marker x) (new_lines_at env j) \<and>
                   poll env j = Returns None \<and> \<not> timed_out rt (clock env j)) \<and>
            new_lines_at env k = pre @ l # post \<and>
            list_all (\<lambda>x. \<not> has_marker x) pre \<and> has_marker l \<and>
            rc = (ws_container (web_start c si tr0))\<lparr>server_error := Some (join_lines (l # post))\<rparr> \<and>
            kill_process_tree (psutil env) (si_process si) tr0 = (None, tr))"
  (is "?L \<longleftrightarrow> ?R")
proof
  let ?s = "web_start c si tr0"
  have lines: "si_output_lines si = startup_lines env"
    using run_web_server_cases[OF started(1)] by simp
  have st: "(ws_output_lines ?s, ws_last_len ?s) = (startup_lines env, 0)"
    by (simp add: web_start_simps lines)
  {
    assume ?L
    then have "web_poll_loop env rt (si_process si) 0 ?s = Some (Inr (False, CrashDetected), rc, tr)"
      unfolding run_main_web_app_running[OF started] .
    then obtain n s' where run: "web_run env rt (si_process si) 0 ?s n = Some s'"
      and stop: "web_tick env rt (si_process si) (0 + n) s' = Stop (Inr (False, CrashDetected), rc, tr)"
      using web_loop_to_run by blast
    have inv: "ws_container s' = ws_container ?s" "ws_trace s' = tr0"
      using web_run_invariant[OF run] by (simp_all add: web_start_simps)
    have batch: "fst (drain env (0 + n) (ws_output_lines s', ws_last_len s')) = new_lines_at env n"
      using web_run_batch[OF run] by (simp add: st new_lines_at_def)
    from stop[unfolded web_tick_failure batch] inv obtain tb where
      tb: "scan_new_lines (new_lines_at env n) = Some tb"
      and kill: "kill_process_tree (psutil env) (si_process si) tr0 = (None, tr)"
      and rc: "rc = (ws_container ?s)\<lparr>server_error := Some tb\<rparr>"
      by auto
    from tb obtain pre l post where split: "new_lines_at env n = pre @ l # post"
      "list_all (\<lambda>x. \<not> has_marker x) pre" "has_marker l" "tb = join_lines (l # post)"
      unfolding scan_new_lines_Some by blast
    have "list_all (\<lambda>x. \<not> has_marker x) (new_lines_at env j) \<and>
          poll env j = Returns None \<and> \<not> timed_out rt (clock env j)" if "j < n" for j
      using web_run_conditions[OF run that] by (simp add: st new_lines_at_def scan_new_lines_None)
    with split kill rc show ?R by blast
  }
  {
    assume ?R
    then obtain k pre l post where
      quiet: "\<And>j. j < k \<Longrightarrow> list_all (\<lambda>x. \<not> has_marker x) (new_lines_at env j) \<and>
                   poll env j = Returns None \<and> \<not> timed_out rt (clock env j)"
      and split: "new_lines_at env k = pre @ l # post"
        "list_all (\<lambda>x. \<not> has_marker x) pre" "has_marker l"
      and rc: "rc = (ws_container ?s)\<lparr>server_error := Some (join_lines (l # post))\<rparr>"
      and kill: "kill_process_tree (psutil env) (si_process si) tr0 = (None, tr)"
      by blast
    show ?L
      unfolding rc using started quiet split kill by (rule web_crash_run)
  }
qed


lemma has_marker_traceback: "has_marker ''Traceback (most recent call last):''"
  by (simp add: has_marker_def crash_marker_def sublist_code prefix_code)

lemma no_marker_request: "\<not> has_marker ''GET /''"
  by (simp add: has_marker_def crash_marker_def sublist_code prefix_code)

lemma no_marker_banner: "\<not> has_marker ''Running on http://127.0.0.1:8000''"
  by (simp add: has_marker_def crash_marker_def sublist_code prefix_code)

lemma run_web_server_crash_while_running:
  "run_web_server env_crash_while_running fp False default_max_wait =
     Some (Inr \<lparr>si_success = True, si_error = None, si_process = 10,
           si_url = Some ''http://127.0.0.1:8000'', si_output_lines = []\<rparr>, [Spawn fp])"
proof -
  have "run_web_server env_crash_while_running fp False default_max_wait =
         Some (Inr \<lparr>si_success = True, si_error = None, si_process = 10,
               si_url = Some (server_url_of 8000),
               si_output_lines = startup_lines env_crash_while_running\<rparr>,
          Spawn (abspath env_crash_while_running fp) #
            (if False then [OpenBrowser (server_url_of 8000)] else []))"
    by (rule run_web_server_bound_at_once)
       (simp_all add: env_crash_while_running_def env_quiet_server_def default_ports_def
          default_max_wait_def)
  then show ?thesis
    by (simp add: env_crash_while_running_def env_quiet_server_def server_url_of_def
        str_nat.simps digit_char_def)
qed

lemma new_lines_at_crash_while_running:
  "new_lines_at env_crash_while_running 0 = [''Running on http://127.0.0.1:8000'']"
  "new_lines_at env_crash_while_running (Suc 0) =
     [''GET /'', ''Traceback (most recent call last):'', ''ZeroDivisionError: division by zero'']"
  by (simp_all add: new_lines_at_def batch_at_def drain_def Let_def
      env_crash_while_running_def env_quiet_server_def)

lemma kill_process_tree_ok:
  "kill_process_tree psutil_ok 10 tr = (None, tr @ [Terminate 11, Terminate 12, Terminate 10])"
  by (simp add: kill_process_tree_def kill_process_tree_try_def psutil_ok_def)

theorem crash_detected_iff_witness:
  "run_main_web_app env_crash_while_running ''/srv/app/main.py'' False None None =
     Some (Inr (False, CrashDetected),
           \<lparr>server_process = Some 10, server_output = [],
            server_url = Some ''http://127.0.0.1:8000'',
            server_error = Some (''Traceback (most recent call last):'' @ CHR 0x0A #
                                 ''ZeroDivisionError: division by zero'')\<rparr>,
           [Spawn ''/srv/app/main.py'', Terminate 11, Terminate 12, Terminate 10])"
proof -
  have env: "psutil env_crash_while_running = psutil_ok"
    "poll env_crash_while_running = (\<lambda>k. Returns None)"
    by (simp_all add: env_crash_while_running_def env_quiet_server_def)
  have "\<exists>k pre l post.
      (\<forall>j<k. list_all (\<lambda>x. \<not> has_marker x) (new_lines_at env_crash_while_running j) \<and>
             poll env_crash_while_running j = Returns None \<and>
             \<not> timed_out None (clock env_crash_while_running j)) \<and>
      new_lines_at env_crash_while_running k = pre @ l # post \<and>
      list_all (\<lambda>x. \<not> has_marker x) pre \<and> has_marker l \<and>
      \<lparr>server_process = Some 10, server_output = [],
       server_url = Some ''http://127.0.0.1:8000'',
       server_error = Some (''Traceback (most recent call last):'' @ CHR 0x0A #
                            ''ZeroDivisionError: division by zero'')\<rparr> =
        (ws_container (web_start None
            \<lparr>si_success = True, si_error = None, si_process = 10,
             si_url = Some ''http://127.0.0.1:8000'', si_output_lines = []\<rparr>
            [Spawn ''/srv/app/main.py'']))\<lparr>server_error := Some (join_lines (l # post))\<rparr> \<and>
      kill_process_tree (psutil env_crash_while_running)
        (si_process \<lparr>si_success = True, si_error = None, si_process = 10,
             si_url = Some ''http://127.0.0.1:8000'', si_output_lines = []\<rparr>)
        [Spawn ''/srv/app/main.py''] =
        (None, [Spawn ''/srv/app/main.py'', Terminate 11, Terminate 12, Terminate 10])"
    apply (rule exI[where x = 1])
    apply (rule exI[where x = "[''GET /'']"])
    apply (rule exI[where x = "''Traceback (most recent call last):''"])
    apply (rule exI[where x = "[''ZeroDivisionError: division by zero'']"])
    apply (simp add: new_lines_at_crash_while_running env kill_process_tree_ok
        has_marker_traceback no_marker_request no_marker_banner web_start_def
        empty_container_def)
    done
  then show ?thesis
    using crash_detected_iff[OF run_web_server_crash_while_running, where rt = None and c = None]
    by simp
qed

lemma run_web_server_crash_at_startup:
  "run_web_server env_crash_at_startup fp False default_max_wait =
     Some (Inr \<lparr>si_success = False, si_error = Some ''Server exited unexpectedly'',
           si_process = 10, si_url = None,
           si_output_lines = [''Traceback (most recent call last):'',
                              ''ModuleNotFoundError: No module named flask'']\<rparr>, [Spawn fp])"
proof -
  have "wait_for_port env_crash_at_startup default_max_wait 0 0 = Some ProcessExited"
    by (rule wait_for_port_exited)
       (simp_all add: env_crash_at_startup_def env_quiet_server_def default_max_wait_def
          float_value_def)
  then show ?thesis
    by (simp add: run_web_server_def env_crash_at_startup_def env_quiet_server_def)
qed

text \<open>
  C2 as stated fails: the captured output holds the marker, yet the run is reported with
  "Server exited unexpectedly", since the process has exited before a port was bound and
  the loop that scans the output is never entered.
\<close>

theorem startup_traceback_not_reported:
  "run_main_web_app env_crash_at_startup ''/srv/app/main.py'' False None None =
     Some (Inr (False, ServerNeverBound),
           \<lparr>server_process = Some 10,
            server_output = [''Traceback (most recent call last):'',
                             ''ModuleNotFoundError: No module named flask''],
            server_url = None,
            server_error = Some ''Server exited unexpectedly''\<rparr>,
           [Spawn ''/srv/app/main.py'']) \<and>
   startup_lines env_crash_at_startup =
     [''Traceback (most recent call last):'', ''ModuleNotFoundError: No module named flask''] \<and>
   has_marker ''Traceback (most recent call last):''"
proof -
  have "run_main_web_app env_crash_at_startup ''/srv/app/main.py'' False None None =
     Some (Inr (False, ServerNeverBound),
           \<lparr>server_process = Some 10,
            server_output = [''Traceback (most recent call last):'',
                             ''ModuleNotFoundError: No module named flask''],
            server_url = None,
            server_error = Some ''Server exited unexpectedly''\<rparr>,
           [Spawn ''/srv/app/main.py''])"
    by (simp add: run_main_web_app_not_started[OF run_web_server_crash_at_startup]
        startup_failure_site_def web_start_def empty_container_def)
  moreover have "startup_lines env_crash_at_startup =
     [''Traceback (most recent call last):'', ''ModuleNotFoundError: No module named flask'']"
    by (simp add: env_crash_at_startup_def env_quiet_server_def)
  ultimately show ?thesis using has_marker_traceback by simp
qed


lemma run_main_web_app_crash_while_running:
  "run_main_web_app env_crash_while_running fp False None None =
     Some (Inr (False, CrashDetected),
           \<lparr>server_process = Some 10, server_output = [],
            server_url = Some ''http://127.0.0.1:8000'',
            server_error = Some (''Traceback (most recent call last):'' @ CHR 0x0A #
                                 ''ZeroDivisionError: division by zero'')\<rparr>,
           [Spawn fp, Terminate 11, Terminate 12, Terminate 10])"
proof -
  have env: "psutil env_crash_while_running = psutil_ok"
    "poll env_crash_while_running = (\<lambda>k. Returns None)"
    by (simp_all add: env_crash_while_running_def env_quiet_server_def)
  have "run_main_web_app env_crash_while_running fp False None None =
         Some (Inr (False, CrashDetected),
               (ws_container (web_start None
                   \<lparr>si_success = True, si_error = None, si_process = 10,
                    si_url = Some ''http://127.0.0.1:8000'', si_output_lines = []\<rparr> [Spawn fp]))
                 \<lparr>server_error := Some (join_lines
                    (''Traceback (most recent call last):'' #
                     [''ZeroDivisionError: division by zero'']))\<rparr>,
               [Spawn fp] @ [Terminate 11, Terminate 12, Terminate 10])"
  proof (rule web_crash_run[where k = 1 and pre = "[''GET /'']", OF run_web_server_crash_while_running])
    fix j :: nat assume "j < 1"
    then show "list_all (\<lambda>x. \<not> has_marker x) (new_lines_at env_crash_while_running j) \<and>
               poll env_crash_while_running j = Returns None \<and>
               \<not> timed_out None (clock env_crash_while_running j)"
      by (simp add: new_lines_at_crash_while_running env no_marker_banner)
  qed (simp_all add: new_lines_at_crash_while_running env kill_process_tree_ok
        has_marker_traceback no_marker_request)
  then show ?thesis by (simp add: web_start_def empty_container_def)
qed

theorem web_failure_signals_witness:
  "(\<exists>tr0. list_all (\<lambda>e. \<not> is_signal e) tr0 \<and> [Spawn ''/srv/app/main.py''] = tr0) \<and>
   (\<exists>tr0. list_all (\<lambda>e. \<not> is_signal e) tr0 \<and>
          kill_process_tree psutil_ok 10 tr0 =
            (None, [Spawn ''/srv/app/main.py'', Terminate 11, Terminate 12, Terminate 10]))"
proof -
  have env: "psutil env_crash_while_running = psutil_ok"
    "popen env_crash_while_running = Returns 10"
    by (simp_all add: env_crash_while_running_def env_quiet_server_def)
  have a: "\<exists>tr0. list_all (\<lambda>e. \<not> is_signal e) tr0 \<and> [Spawn ''/srv/app/main.py''] = tr0"
    using web_failure_signals[OF run_main_web_app_never_binds[of "''/srv/app/main.py''"]]
    by auto
  have b: "\<exists>tr0. list_all (\<lambda>e. \<not> is_signal e) tr0 \<and>
          kill_process_tree psutil_ok 10 tr0 =
            (None, [Spawn ''/srv/app/main.py'', Terminate 11, Terminate 12, Terminate 10])"
    using web_failure_signals[OF run_main_web_app_crash_while_running[of "''/srv/app/main.py''"]]
    by (auto simp: env)
  from a b show ?thesis ..
qed



section \<open>The console loop, timeouts and exceptions\<close>

lemma console_tick_Continue:
  "console_tick env rt p a k tr = Continue tr' \<longleftrightarrow>
   poll env k = Returns None \<and> \<not> timed_out rt (clock env k) \<and> tr' = tr"
  by (auto simp: console_tick_def split: outcome.splits option.splits)

lemma console_run_quiet:
  assumes "\<And>j. j < n \<Longrightarrow> poll env (k + j) = Returns None \<and> \<not> timed_out rt (clock env (k + j))"
  shows "console_run env rt p a k tr n = Some tr"
  using assms
proof (induction n arbitrary: k)
  case 0
  then show ?case by simp
next
  case (Suc n)
  have c: "console_tick env rt p a k tr = Continue tr"
    using Suc.prems[of 0] by (simp add: console_tick_Continue)
  have "console_run env rt p a (Suc k) tr n = Some tr"
  proof (rule Suc.IH)
    fix j assume "j < n"
    then show "poll env (Suc k + j) = Returns None \<and> \<not> timed_out rt (clock env (Suc k + j))"
      using Suc.prems[of "Suc j"] by simp
  qed
  with c show ?case by simp
qed

lemma console_stops_at:
  assumes "popen env = Returns p"
    and "\<And>j. j < k \<Longrightarrow> poll env j = Returns None \<and> \<not> timed_out rt (clock env j)"
    and "console_tick env rt p (abspath env mp) k [Spawn (abspath env mp)] = Stop r"
  shows "run_main_as_console_app env mp rt = Some r"
proof -
  have "console_run env rt p (abspath env mp) 0 [Spawn (abspath env mp)] k =
        Some [Spawn (abspath env mp)]"
    by (rule console_run_quiet) (simp add: assms(2))
  moreover have "console_tick env rt p (abspath env mp) (0 + k) [Spawn (abspath env mp)] = Stop r"
    using assms(3) by simp
  ultimately have "console_poll_loop env rt p (abspath env mp) 0 [Spawn (abspath env mp)] = Some r"
    by (rule console_loop_from_run)
  then show ?thesis using assms(1) by (simp add: run_main_as_console_app_def)
qed

lemma console_timeout_run:
  assumes "popen env = Returns p" and "t \<noteq> 0"
    and "\<And>j. j \<le> k \<Longrightarrow> poll env j = Returns None"
    and "\<And>j. j < k \<Longrightarrow> \<not> of_int t < clock env j" and "of_int t < clock env k"
  shows "run_main_as_console_app env mp (Some t) =
         Some (Inr \<lparr>success = False,
                    error = Some (''time out'' @ str_int t @ ''seconds. terminate now''),
                    stdout = Some [], stderr = Some (stderr_file env k), returncode = None,
                    filepath = Some (abspath env mp)\<rparr>,
               [Spawn (abspath env mp), Kill p])"
proof (rule console_stops_at[OF assms(1), where k = k])
  fix j assume "j < k"
  then show "poll env j = Returns None \<and> \<not> timed_out (Some t) (clock env j)"
    using assms(3)[of j] assms(4)[of j] by simp
next
  show "console_tick env (Some t) p (abspath env mp) k [Spawn (abspath env mp)] =
        Stop (Inr \<lparr>success = False,
                    error = Some (''time out'' @ str_int t @ ''seconds. terminate now''),
                    stdout = Some [], stderr = Some (stderr_file env k), returncode = None,
                    filepath = Some (abspath env mp)\<rparr>,
               [Spawn (abspath env mp), Kill p])"
    using assms(2,5) assms(3)[of k] by (simp add: console_tick_def)
qed

lemma console_exception_run:
  assumes "popen env = Returns p"
    and "\<And>j. j < k \<Longrightarrow> poll env j = Returns None \<and> \<not> timed_out rt (clock env j)"
    and "poll env k = Raises e" and "is_Exception e"
    and "handler_kill env k = None" and "handler_read env k = Returns txt"
  shows "run_main_as_console_app env mp rt =
         Some (Inr \<lparr>success = False, error = Some (str_exn e), stdout = Some [],
                    stderr = Some txt, returncode = None,
                    filepath = Some (abspath env mp)\<rparr>,
               [Spawn (abspath env mp), Kill p])"
proof (rule console_stops_at[OF assms(1), where k = k])
  fix j assume "j < k"
  then show "poll env j = Returns None \<and> \<not> timed_out rt (clock env j)" by (rule assms(2))
next
  show "console_tick env rt p (abspath env mp) k [Spawn (abspath env mp)] =
        Stop (Inr \<lparr>success = False, error = Some (str_exn e), stdout = Some [],
                    stderr = Some txt, returncode = None,
                    filepath = Some (abspath env mp)\<rparr>,
               [Spawn (abspath env mp), Kill p])"
    using assms(3-6) by (simp add: console_tick_def console_except_def)
qed

lemma console_handler_kill_raises:
  assumes "popen env = Returns p"
    and "\<And>j. j < k \<Longrightarrow> poll env j = Returns None \<and> \<not> timed_out rt (clock env j)"
    and "poll env k = Raises e" and "is_Exception e"
    and "handler_kill env k = Some e'"
  shows "run_main_as_console_app env mp rt = Some (Inl e', [Spawn (abspath env mp)])"
proof (rule console_stops_at[OF assms(1), where k = k])
  fix j assume "j < k"
  then show "poll env j = Returns None \<and> \<not> timed_out rt (clock env j)" by (rule assms(2))
next
  show "console_tick env rt p (abspath env mp) k [Spawn (abspath env mp)] =
        Stop (Inl e', [Spawn (abspath env mp)])"
    using assms(3-5) by (simp add: console_tick_def console_except_def)
qed


lemma console_exit_run:
  assumes "popen env = Returns p"
    and "\<And>j. j < k \<Longrightarrow> poll env j = Returns None \<and> \<not> timed_out rt (clock env j)"
    and "poll env k = Returns (Some ret)"
  shows "run_main_as_console_app env mp rt =
         Some (Inr \<lparr>success = (ret = 0),
                    error = (if ret = 0 then None else Some ''failed to run''),
                    stdout = Some [], stderr = Some (stderr_file env k),
                    returncode = Some ret, filepath = Some (abspath env mp)\<rparr>,
               [Spawn (abspath env mp)])"
proof (rule console_stops_at[OF assms(1), where k = k])
  fix j assume "j < k"
  then show "poll env j = Returns None \<and> \<not> timed_out rt (clock env j)" by (rule assms(2))
next
  show "console_tick env rt p (abspath env mp) k [Spawn (abspath env mp)] =
        Stop (Inr \<lparr>success = (ret = 0),
                    error = (if ret = 0 then None else Some ''failed to run''),
                    stdout = Some [], stderr = Some (stderr_file env k),
                    returncode = Some ret, filepath = Some (abspath env mp)\<rparr>,
               [Spawn (abspath env mp)])"
    using assms(3) by (simp add: console_tick_def)
qed

lemma web_raise_run:
  assumes started: "run_web_server env mp ob default_max_wait = Some (Inr si, tr0)" "si_success si"
    and quiet: "\<And>j. j < k \<Longrightarrow> list_all (\<lambda>x. \<not> has_marker x) (new_lines_at env j) \<and>
                   poll env j = Returns None \<and> \<not> timed_out rt (clock env j)"
    and clean: "list_all (\<lambda>x. \<not> has_marker x) (new_lines_at env k)"
    and raises: "poll env k = Raises e"
  shows "run_main_web_app env mp ob rt c =
         Some (web_except env (si_process si) e (ws_container (web_start c si tr0)) tr0)"
proof -
  let ?s = "web_start c si tr0"
  have lines: "si_output_lines si = startup_lines env"
    using run_web_server_cases[OF started(1)] by simp
  have st: "(ws_output_lines ?s, ws_last_len ?s) = (startup_lines env, 0)"
    by (simp add: web_start_simps lines)
  have "\<exists>s'. web_run env rt (si_process si) 0 ?s k = Some s'"
  proof (rule web_run_quiet)
    fix j assume "j < k"
    then show "scan_new_lines (batch_at env 0 (ws_output_lines ?s, ws_last_len ?s) j) = None \<and>
               poll env (0 + j) = Returns None \<and> \<not> timed_out rt (clock env (0 + j))"
      using quiet[of j] by (simp add: st new_lines_at_def scan_new_lines_None)
  qed
  then obtain s' where run: "web_run env rt (si_process si) 0 ?s k = Some s'" ..
  have inv: "ws_container s' = ws_container ?s" "ws_trace s' = tr0"
    using web_run_invariant[OF run] by (simp_all add: web_start_simps)
  have batch: "fst (drain env k (ws_output_lines s', ws_last_len s')) = new_lines_at env k"
    using web_run_batch[OF run] by (simp add: st new_lines_at_def)
  have "web_tick env rt (si_process si) (0 + k) s' =
        Stop (web_except env (si_process si) e (ws_container ?s) tr0)"
    using web_tick_raises[where env = env and k = k and s = s' and p = "si_process si"
        and rt = rt and e = e] clean raises
    by (simp add: batch inv scan_new_lines_None)
  with run have "web_poll_loop env rt (si_process si) 0 ?s =
                 Some (web_except env (si_process si) e (ws_container ?s) tr0)"
    by (rule web_loop_from_run)
  then show ?thesis unfolding run_main_web_app_running[OF started] .
qed


lemma run_main_as_console_app_quiet_timeout:
  "run_main_as_console_app env_quiet_server fp (Some 5) =
     Some (Inr \<lparr>success = False, error = Some ''time out5seconds. terminate now'',
                stdout = Some [], stderr = Some [], returncode = None,
                filepath = Some fp\<rparr>,
           [Spawn fp, Kill 10])"
proof -
  have env: "popen env_quiet_server = Returns 10" "poll env_quiet_server = (\<lambda>k. Returns None)"
    "clock env_quiet_server = of_nat" "abspath env_quiet_server = (\<lambda>f. f)"
    "stderr_file env_quiet_server = (\<lambda>k. [])"
    by (simp_all add: env_quiet_server_def)
  show ?thesis
    using console_timeout_run[where env = env_quiet_server and p = 10 and t = 5 and k = 6
        and mp = fp]
    by (simp add: env str_int_def str_nat.simps digit_char_def)
qed

text \<open>
  C6, as the code has it. A service run that reaches its timeout calls the tree
  terminator before it returns, and when every process lookup succeeds the root and all
  its descendants have been sent a terminate signal. A console run that reaches its
  timeout sends one kill signal, to the spawned process itself, and none to its
  descendants.
\<close>

theorem timeout_signals:
  "(run_web_server env mp ob default_max_wait = Some (Inr si, trs) \<and> si_success si \<and> t \<noteq> 0 \<and>
    (\<forall>j\<le>k. poll env j = Returns None \<and> list_all (\<lambda>l. \<not> has_marker l) (new_lines_at env j)) \<and>
    (\<forall>j<k. \<not> of_int t < clock env j) \<and> of_int t < clock env k \<and>
    process_lookup (psutil env) = None \<and> children_recursive (psutil env) = Inr cs \<and>
    (\<forall>q \<in> set (si_process si # cs). terminate_result (psutil env) q = None) \<longrightarrow>
      (\<exists>rc tr. run_main_web_app env mp ob (Some t) c = Some (Inr (True, TimedOutStopped), rc, tr) \<and>
               tree_signalled (si_process si) cs tr)) \<and>
   (popen env = Returns p \<and> t \<noteq> 0 \<and> (\<forall>j\<le>k. poll env j = Returns None) \<and>
    (\<forall>j<k. \<not> of_int t < clock env j) \<and> of_int t < clock env k \<longrightarrow>
      (\<exists>r. run_main_as_console_app env mp (Some t) =
              Some (Inr r, [Spawn (abspath env mp), Kill p]) \<and>
           \<not> success r \<and>
           error r = Some (''time out'' @ str_int t @ ''seconds. terminate now'')))"
proof (intro conjI impI)
  assume h: "run_web_server env mp ob default_max_wait = Some (Inr si, trs) \<and> si_success si \<and> t \<noteq> 0 \<and>
    (\<forall>j\<le>k. poll env j = Returns None \<and> list_all (\<lambda>l. \<not> has_marker l) (new_lines_at env j)) \<and>
    (\<forall>j<k. \<not> of_int t < clock env j) \<and> of_int t < clock env k \<and>
    process_lookup (psutil env) = None \<and> children_recursive (psutil env) = Inr cs \<and>
    (\<forall>q \<in> set (si_process si # cs). terminate_result (psutil env) q = None)"
  let ?s = "web_start c si trs"
  let ?tr = "trs @ map Terminate cs @ [Terminate (si_process si)]"
  have kill: "kill_process_tree (psutil env) (si_process si) trs = (None, ?tr)"
    using h by (intro kill_process_tree_all_sent) auto
  have sig: "tree_signalled (si_process si) cs ?tr"
    using kill_process_tree_all_signalled[of "psutil env" cs "si_process si" trs] h
    by (simp add: kill)
  have lines: "si_output_lines si = startup_lines env"
    using run_web_server_cases[of env mp ob default_max_wait si trs] h by simp
  have "web_poll_loop env (Some t) (si_process si) 0 ?s =
          Some (Inr (True, TimedOutStopped), ws_container ?s, ?tr)"
  proof (rule web_timeout_run)
    show "t \<noteq> 0" using h by simp
  next
    fix j assume "j \<le> k"
    then show "poll env j = Returns None \<and>
      list_all (\<lambda>l. \<not> has_marker l) (batch_at env 0 (ws_output_lines ?s, ws_last_len ?s) j)"
      using h by (simp add: web_start_simps lines new_lines_at_def)
  next
    fix j assume "j < k"
    then show "\<not> of_int t < clock env j" using h by simp
  next
    show "of_int t < clock env k" using h by simp
  next
    show "kill_process_tree (psutil env) (si_process si) (ws_trace ?s) = (None, ?tr)"
      using kill by (simp add: web_start_simps)
  qed
  then have "run_main_web_app env mp ob (Some t) c =
             Some (Inr (True, TimedOutStopped), ws_container ?s, ?tr)"
    using run_main_web_app_running[of env mp ob si trs "Some t" c] h by simp
  with sig show "\<exists>rc tr. run_main_web_app env mp ob (Some t) c =
                    Some (Inr (True, TimedOutStopped), rc, tr) \<and>
                  tree_signalled (si_process si) cs tr"
    by blast
next
  assume h: "popen env = Returns p \<and> t \<noteq> 0 \<and> (\<forall>j\<le>k. poll env j = Returns None) \<and>
    (\<forall>j<k. \<not> of_int t < clock env j) \<and> of_int t < clock env k"
  have "run_main_as_console_app env mp (Some t) =
         Some (Inr \<lparr>success = False,
                    error = Some (''time out'' @ str_int t @ ''seconds. terminate now''),
                    stdout = Some [], stderr = Some (stderr_file env k), returncode = None,
                    filepath = Some (abspath env mp)\<rparr>,
               [Spawn (abspath env mp), Kill p])"
    using h by (intro console_timeout_run) auto
  then show "\<exists>r. run_main_as_console_app env mp (Some t) =
              Some (Inr r, [Spawn (abspath env mp), Kill p]) \<and>
           \<not> success r \<and>
           error r = Some (''time out'' @ str_int t @ ''seconds. terminate now'')"
    by simp
qed

text \<open>
  C6 as stated fails: a console run whose child has the descendants 11 and 12 reaches
  its timeout of 5 seconds; only process 10 has been signalled when the call returns.
\<close>

theorem console_timeout_leaves_descendants:
  "run_main_as_console_app env_quiet_server ''/home/u/proj/main.py'' (Some 5) =
     Some (Inr \<lparr>success = False, error = Some ''time out5seconds. terminate now'',
                stdout = Some [], stderr = Some [], returncode = None,
                filepath = Some ''/home/u/proj/main.py''\<rparr>,
           [Spawn ''/home/u/proj/main.py'', Kill 10]) \<and>
   children_recursive (psutil env_quiet_server) = Inr [11, 12] \<and>
   \<not> tree_signalled 10 [11, 12] [Spawn ''/home/u/proj/main.py'', Kill 10]"
proof -
  have "children_recursive (psutil env_quiet_server) = Inr [11, 12]"
    by (simp add: env_quiet_server_def psutil_ok_def)
  moreover have "\<not> tree_signalled 10 [11, 12] [Spawn ''/home/u/proj/main.py'', Kill 10]"
    by (simp add: tree_signalled_def signalled_def)
  ultimately show ?thesis using run_main_as_console_app_quiet_timeout by simp
qed

theorem timeout_signals_witness:
  "(\<exists>rc tr. run_main_web_app env_quiet_server ''/srv/app/main.py'' False (Some 5) None =
              Some (Inr (True, TimedOutStopped), rc, tr) \<and> tree_signalled 10 [11, 12] tr) \<and>
   (\<exists>r. run_main_as_console_app env_quiet_server ''/home/u/proj/main.py'' (Some 5) =
           Some (Inr r, [Spawn ''/home/u/proj/main.py'', Kill 10]) \<and>
         \<not> success r \<and> error r = Some ''time out5seconds. terminate now'')"
proof -
  have nl: "new_lines_at env_quiet_server j = []" for j
    by (rule new_lines_at_silent) (simp_all add: env_quiet_server_def)
  have env: "psutil env_quiet_server = psutil_ok" "poll env_quiet_server = (\<lambda>k. Returns None)"
    "clock env_quiet_server = of_nat" "popen env_quiet_server = Returns 10"
    "abspath env_quiet_server = (\<lambda>f. f)"
    by (simp_all add: env_quiet_server_def)
  have a: "\<exists>rc tr. run_main_web_app env_quiet_server ''/srv/app/main.py'' False (Some 5) None =
              Some (Inr (True, TimedOutStopped), rc, tr) \<and> tree_signalled 10 [11, 12] tr"
    using timeout_signals[where env = env_quiet_server and mp = "''/srv/app/main.py''"
        and ob = False and t = 5 and k = 6 and c = None and cs = "[11, 12]"
        and trs = "[Spawn ''/srv/app/main.py'']"
        and si = "\<lparr>si_success = True, si_error = None, si_process = 10,
                   si_url = Some ''http://127.0.0.1:8000'', si_output_lines = []\<rparr>",
        THEN conjunct1]
    by (simp add: run_web_server_quiet_server nl env psutil_ok_def)
  have b: "\<exists>r. run_main_as_console_app env_quiet_server ''/home/u/proj/main.py'' (Some 5) =
           Some (Inr r, [Spawn ''/home/u/proj/main.py'', Kill 10]) \<and>
         \<not> success r \<and> error r = Some ''time out5seconds. terminate now''"
    using timeout_signals[where env = env_quiet_server and mp = "''/home/u/proj/main.py''"
        and t = 5 and k = 6 and p = 10, THEN conjunct2]
    by (simp add: env str_int_def str_nat.simps digit_char_def)
  from a b show ?thesis ..
qed


lemma run_web_server_poll_raises:
  "run_web_server env_poll_raises fp False default_max_wait =
     Some (Inr \<lparr>si_success = True, si_error = None, si_process = 10,
           si_url = Some ''http://127.0.0.1:8000'', si_output_lines = []\<rparr>, [Spawn fp])"
proof -
  have "run_web_server env_poll_raises fp False default_max_wait =
         Some (Inr \<lparr>si_success = True, si_error = None, si_process = 10,
               si_url = Some (server_url_of 8000),
               si_output_lines = startup_lines env_poll_raises\<rparr>,
          Spawn (abspath env_poll_raises fp) #
            (if False then [OpenBrowser (server_url_of 8000)] else []))"
    by (rule run_web_server_bound_at_once)
       (simp_all add: env_poll_raises_def env_quiet_server_def default_ports_def
          default_max_wait_def)
  then show ?thesis
    by (simp add: env_poll_raises_def env_quiet_server_def server_url_of_def
        str_nat.simps digit_char_def)
qed

lemma run_main_web_app_poll_raises:
  "run_main_web_app env_poll_raises fp False None None =
     Some (Inl (OtherException ''[WinError 6] The handle is invalid''),
           \<lparr>server_process = Some 10, server_output = [],
            server_url = Some ''http://127.0.0.1:8000'', server_error = None\<rparr>,
           [Spawn fp])"
proof -
  have nl: "new_lines_at env_poll_raises j = []" for j
    by (rule new_lines_at_silent) (simp_all add: env_poll_raises_def env_quiet_server_def)
  have "run_main_web_app env_poll_raises fp False None None =
         Some (web_except env_poll_raises
                 (si_process \<lparr>si_success = True, si_error = None, si_process = 10,
                     si_url = Some ''http://127.0.0.1:8000'', si_output_lines = []\<rparr>)
                 (OtherException ''[WinError 6] The handle is invalid'')
                 (ws_container (web_start None
                     \<lparr>si_success = True, si_error = None, si_process = 10,
                      si_url = Some ''http://127.0.0.1:8000'', si_output_lines = []\<rparr>
                     [Spawn fp])) [Spawn fp])"
    by (rule web_raise_run[where k = 0, OF run_web_server_poll_raises])
       (simp_all add: nl, simp add: env_poll_raises_def env_quiet_server_def)
  then show ?thesis by (simp add: web_except_def web_start_def empty_container_def)
qed

lemma run_main_as_console_app_poll_raises:
  "run_main_as_console_app env_poll_raises fp (Some 30) =
     Some (Inl (OtherException ''[WinError 6] The handle is invalid''), [Spawn fp])"
proof -
  have "run_main_as_console_app env_poll_raises fp (Some 30) =
         Some (Inl (OtherException ''[WinError 6] The handle is invalid''),
               [Spawn (abspath env_poll_raises fp)])"
    by (rule console_handler_kill_raises[where k = 0
          and e = "OtherException ''[WinError 6] The handle is invalid''"])
       (simp_all add: env_poll_raises_def env_quiet_server_def)
  then show ?thesis by (simp add: env_poll_raises_def env_quiet_server_def)
qed

text \<open>
  C7. The claim: in either mode an unexpected exception raised during supervision is
  caught inside the core, the process is killed and a failure result with the text of
  the exception is returned, so that no exception reaches the caller. The console loop
  and \<^verbatim>\<open>execute_python_code\<close> have an \<^verbatim>\<open>except Exception\<close> handler; the loop of
  \<^verbatim>\<open>run_main_web_app\<close> has one for \<^verbatim>\<open>KeyboardInterrupt\<close> only. Evaluated on a server
  that has bound port 8000 and whose process handle has become invalid, so that
  \<^verbatim>\<open>process.poll()\<close> raises in the first tick: the service run with no timeout leaves
  \<^verbatim>\<open>run_main_web_app\<close> by that exception, with no signal sent to the child 10. In the
  console run of the same child the handler is entered, its own \<^verbatim>\<open>process.kill()\<close>
  raises on the same handle, and the exception leaves \<^verbatim>\<open>run_main_as_console_app\<close> too.
\<close>

theorem service_exception_propagates:
  "run_main_web_app env_poll_raises ''/srv/app/main.py'' False None None =
     Some (Inl (OtherException ''[WinError 6] The handle is invalid''),
           \<lparr>server_process = Some 10, server_output = [],
            server_url = Some ''http://127.0.0.1:8000'', server_error = None\<rparr>,
           [Spawn ''/srv/app/main.py'']) \<and>
   \<not> signalled [Spawn ''/srv/app/main.py''] 10 \<and>
   run_main_as_console_app env_poll_raises ''/srv/app/main.py'' (Some 30) =
     Some (Inl (OtherException ''[WinError 6] The handle is invalid''),
           [Spawn ''/srv/app/main.py''])"
  by (simp add: run_main_web_app_poll_raises run_main_as_console_app_poll_raises
      signalled_def)
section \<open>A missing entry file\<close>

lemma execute_python_code_missing_file:
  "\<not> path_exists env (abspath env fp) \<Longrightarrow>
   execute_python_code env fp timeout input_text =
     (Inr \<lparr>success = False, error = Some (''file not found '' @ abspath env fp),
           stdout = None, stderr = None, returncode = None, filepath = None\<rparr>, [])"
  by (simp add: execute_python_code_def)

lemma run_web_server_missing_file:
  "run_web_server env_missing_file fp False default_max_wait =
     Some (Inr \<lparr>si_success = False, si_error = Some ''Server exited unexpectedly'',
           si_process = 10, si_url = None, si_output_lines = []\<rparr>, [Spawn fp])"
proof -
  have "wait_for_port env_missing_file default_max_wait 0 0 = Some ProcessExited"
    by (rule wait_for_port_exited)
       (simp_all add: env_missing_file_def env_quiet_server_def default_max_wait_def
          float_value_def)
  then show ?thesis
    by (simp add: run_web_server_def env_missing_file_def env_quiet_server_def)
qed

text \<open>
  C5. A run on an entry file that does not exist fails at once with "file not found"
  and spawns nothing, in console mode and in service mode. Evaluated on a path that does
  not exist: \<^verbatim>\<open>execute_python_code\<close> does so, but \<^verbatim>\<open>run_main_as_console_app\<close> and
  \<^verbatim>\<open>run_main_web_app\<close> start the interpreter on the path and report what becomes of
  that process.
\<close>

theorem missing_entry_file_is_spawned:
  "\<not> path_exists env_missing_file (abspath env_missing_file ''/home/u/proj/main.py'') \<and>
   execute_python_code env_missing_file ''/home/u/proj/main.py'' None None =
     (Inr \<lparr>success = False, error = Some ''file not found /home/u/proj/main.py'',
           stdout = None, stderr = None, returncode = None, filepath = None\<rparr>, []) \<and>
   run_main_as_console_app env_missing_file ''/home/u/proj/main.py'' None =
     Some (Inr \<lparr>success = False, error = Some ''failed to run'', stdout = Some [],
                stderr = Some ''No such file or directory'', returncode = Some 2,
                filepath = Some ''/home/u/proj/main.py''\<rparr>,
           [Spawn ''/home/u/proj/main.py'']) \<and>
   run_main_web_app env_missing_file ''/home/u/proj/main.py'' False None None =
     Some (Inr (False, ServerNeverBound),
           \<lparr>server_process = Some 10, server_output = [], server_url = None,
            server_error = Some ''Server exited unexpectedly''\<rparr>,
           [Spawn ''/home/u/proj/main.py''])"
proof -
  have env: "popen env_missing_file = Returns 10"
    "poll env_missing_file = (\<lambda>k. Returns (Some 2))"
    "abspath env_missing_file = (\<lambda>f. f)"
    "stderr_file env_missing_file = (\<lambda>k. ''No such file or directory'')"
    "path_exists env_missing_file = (\<lambda>f. False)"
    by (simp_all add: env_missing_file_def env_quiet_server_def)
  have a: "\<not> path_exists env_missing_file (abspath env_missing_file ''/home/u/proj/main.py'')"
    by (simp add: env)
  have b: "execute_python_code env_missing_file ''/home/u/proj/main.py'' None None =
     (Inr \<lparr>success = False, error = Some ''file not found /home/u/proj/main.py'',
           stdout = None, stderr = None, returncode = None, filepath = None\<rparr>, [])"
    using execute_python_code_missing_file[OF a, of None None] by (simp add: env)
  have c: "run_main_as_console_app env_missing_file ''/home/u/proj/main.py'' None =
     Some (Inr \<lparr>success = False, error = Some ''failed to run'', stdout = Some [],
                stderr = Some ''No such file or directory'', returncode = Some 2,
                filepath = Some ''/home/u/proj/main.py''\<rparr>,
           [Spawn ''/home/u/proj/main.py''])"
    using console_exit_run[where env = env_missing_file and p = 10 and k = 0 and ret = 2
        and rt = None and mp = "''/home/u/proj/main.py''"]
    by (simp add: env)
  have d: "run_main_web_app env_missing_file ''/home/u/proj/main.py'' False None None =
     Some (Inr (False, ServerNeverBound),
           \<lparr>server_process = Some 10, server_output = [], server_url = None,
            server_error = Some ''Server exited unexpectedly''\<rparr>,
           [Spawn ''/home/u/proj/main.py''])"
    by (simp add: run_main_web_app_not_started[OF run_web_server_missing_file]
        startup_failure_site_def web_start_def empty_container_def)
  from a b c d show ?thesis by blast
qed

section \<open>Draining the output buffer\<close>

lemma drain_cursor:
  "snd (snd (drain env k st)) = length (fst (snd (drain env k st)))"
  by (simp add: drain_def Let_def)

lemma drain_cursor_grows:
  "snd st \<le> length (fst st) \<Longrightarrow> snd st \<le> snd (snd (drain env k st))"
  by (simp add: drain_def Let_def)

lemma cursor_from_never_rewinds:
  "snd st \<le> length (fst st) \<Longrightarrow>
   snd (cursor_from env k st n) \<le> snd (cursor_from env k st (Suc n))"
proof (induction n arbitrary: k st)
  case 0
  then show ?case by (simp add: drain_cursor_grows)
next
  case (Suc n)
  have "snd (snd (drain env k st)) \<le> length (fst (snd (drain env k st)))"
    by (simp add: drain_cursor)
  from Suc.IH[OF this, of "Suc k"] show ?case by simp
qed

text \<open>
  Between two ticks that both continue, a line appended after the slice
  \<^verbatim>\<open>output_lines[last_len:]\<close> and before \<^verbatim>\<open>len(output_lines)\<close> is counted by the
  cursor and is in no batch: after three ticks the list holds the line, the cursor is
  past it, and every batch is empty.
\<close>

lemma racing_append_is_skipped:
  "raced env_race 0 = [''GET /index 200''] \<and>
   batches env_race 0 (startup_lines env_race, 0) 3 = [[], [], []] \<and>
   cursor_from env_race 0 (startup_lines env_race, 0) 3 = ([''GET /index 200''], 1)"
  by (simp add: env_race_def env_quiet_server_def drain_def Let_def eval_nat_numeral)



lemma batches_up_to_slice:
  assumes "\<And>j. j < n \<Longrightarrow> raced env (k + j) = []" and "m \<le> length ls"
  shows "take m ls @ concat (batches env k (ls, m) (Suc n)) =
         ls @ concat (map (\<lambda>j. appended env (k + j)) [0..<Suc n])"
  using assms
proof (induction n arbitrary: k ls m)
  case 0
  then show ?case by (simp add: drain_def Let_def)
next
  case (Suc n)
  let ?L = "ls @ appended env k"
  have r0: "raced env k = []" using Suc.prems(1)[of 0] by simp
  have d: "drain env k (ls, m) = (drop m ?L, ?L, length ?L)"
    by (simp add: drain_def Let_def r0)
  have ih: "take (length ?L) ?L @ concat (batches env (Suc k) (?L, length ?L) (Suc n)) =
        ?L @ concat (map (\<lambda>j. appended env (Suc k + j)) [0..<Suc n])"
  proof (rule Suc.IH)
    fix j assume "j < n"
    then show "raced env (Suc k + j) = []" using Suc.prems(1)[of "Suc j"] by simp
  qed simp
  have shift: "map (\<lambda>j. appended env (k + j)) [0..<Suc (Suc n)] =
               appended env k # map (\<lambda>j. appended env (Suc k + j)) [0..<Suc n]"
    by (simp only: upt_conv_Cons[of 0 "Suc (Suc n)"] zero_less_Suc list.map
        map_Suc_upt[symmetric] map_map o_def add_Suc_right add_Suc add_0_right)
  have split: "take m ls @ drop m ?L = ?L"
    using Suc.prems(2) by simp
  have "take m ls @ concat (batches env k (ls, m) (Suc (Suc n))) =
        (take m ls @ drop m ?L) @ concat (batches env (Suc k) (?L, length ?L) (Suc n))"
    by (simp only: batches.simps d fst_conv snd_conv concat.simps append_assoc)
  also have "\<dots> = ?L @ concat (map (\<lambda>j. appended env (Suc k + j)) [0..<Suc n])"
    using ih by (simp only: split take_all order_refl)
  also have "\<dots> = ls @ concat (map (\<lambda>j. appended env (k + j)) [0..<Suc (Suc n)])"
    by (simp only: shift concat.simps append_assoc)
  finally show ?case .
qed


lemma batch_at_shift:
  "batch_at env (Suc k) (snd (drain env k st)) j = batch_at env k st (Suc j)"
  by (simp add: batch_at_def)

lemma batches_eq_batch_at:
  "batches env k st n = map (batch_at env k st) [0..<n]"
proof (induction n arbitrary: k st)
  case 0
  then show ?case by simp
next
  case (Suc n)
  have "batches env k st (Suc n) =
        batch_at env k st 0 # map (batch_at env (Suc k) (snd (drain env k st))) [0..<n]"
    by (simp add: Suc.IH batch_at_def)
  also have "\<dots> = batch_at env k st 0 # map (\<lambda>j. batch_at env k st (Suc j)) [0..<n]"
    by (simp add: batch_at_shift)
  also have "\<dots> = map (batch_at env k st) [0..<Suc n]"
    by (simp only: map_upt_Suc)
  finally show ?case .
qed

text \<open>
  C8, as the code has it. The batches taken up to and including tick \<open>n\<close>, concatenated,
  are exactly the lines captured during startup followed by the lines the reader thread
  appended before the slice of tick \<open>n\<close>, in their order, none twice and none missing,
  provided that in the earlier ticks the thread appended nothing between the slice and the
  \<^verbatim>\<open>len\<close>. What it appends after the last slice of a session is in no batch. The
  cursor never decreases.
\<close>

theorem batches_lossless_up_to_last_slice:
  "((\<forall>j<n. raced env j = []) \<longrightarrow>
      concat (map (new_lines_at env) [0..<Suc n]) =
        startup_lines env @ concat (map (appended env) [0..<Suc n])) \<and>
   snd (cursor_from env 0 (startup_lines env, 0) n)
     \<le> snd (cursor_from env 0 (startup_lines env, 0) (Suc n))"
proof
  show "(\<forall>j<n. raced env j = []) \<longrightarrow>
      concat (map (new_lines_at env) [0..<Suc n]) =
        startup_lines env @ concat (map (appended env) [0..<Suc n])"
  proof
    assume h: "\<forall>j<n. raced env j = []"
    have A: "concat (batches env 0 (startup_lines env, 0) (Suc n)) =
          startup_lines env @ concat (map (appended env) [0..<Suc n])"
      using batches_up_to_slice[where env = env and n = n and k = 0 and m = 0
          and ls = "startup_lines env"] h
      by (simp del: batches.simps upt_Suc)
    have B: "map (new_lines_at env) [0..<Suc n] = batches env 0 (startup_lines env, 0) (Suc n)"
      unfolding batches_eq_batch_at by (simp add: new_lines_at_def[abs_def])
    show "concat (map (new_lines_at env) [0..<Suc n]) =
        startup_lines env @ concat (map (appended env) [0..<Suc n])"
      unfolding B by (rule A)
  qed
next
  show "snd (cursor_from env 0 (startup_lines env, 0) n)
          \<le> snd (cursor_from env 0 (startup_lines env, 0) (Suc n))"
    by (rule cursor_from_never_rewinds) simp
qed

lemma web_exit_run:
  assumes started: "run_web_server env mp ob default_max_wait = Some (Inr si, tr0)" "si_success si"
    and quiet: "\<And>j. j < k \<Longrightarrow> list_all (\<lambda>x. \<not> has_marker x) (new_lines_at env j) \<and>
                   poll env j = Returns None \<and> \<not> timed_out rt (clock env j)"
    and clean: "list_all (\<lambda>x. \<not> has_marker x) (new_lines_at env k)"
    and exited: "poll env k = Returns (Some code)"
  shows "run_main_web_app env mp ob rt c =
         Some (Inr (False, UnexpectedExit),
               (if server_error (ws_container (web_start c si tr0)) = None
                then (ws_container (web_start c si tr0))
                       \<lparr>server_error := Some ''Web server stopped unexpectedly''\<rparr>
                else ws_container (web_start c si tr0)),
               tr0)"
proof -
  let ?s = "web_start c si tr0"
  have lines: "si_output_lines si = startup_lines env"
    using run_web_server_cases[OF started(1)] by simp
  have st: "(ws_output_lines ?s, ws_last_len ?s) = (startup_lines env, 0)"
    by (simp add: web_start_simps lines)
  have "\<exists>s'. web_run env rt (si_process si) 0 ?s k = Some s'"
  proof (rule web_run_quiet)
    fix j assume "j < k"
    then show "scan_new_lines (batch_at env 0 (ws_output_lines ?s, ws_last_len ?s) j) = None \<and>
               poll env (0 + j) = Returns None \<and> \<not> timed_out rt (clock env (0 + j))"
      using quiet[of j] by (simp add: st new_lines_at_def scan_new_lines_None)
  qed
  then obtain s' where run: "web_run env rt (si_process si) 0 ?s k = Some s'" ..
  have inv: "ws_container s' = ws_container ?s" "ws_trace s' = tr0"
    using web_run_invariant[OF run] by (simp_all add: web_start_simps)
  have batch: "fst (drain env k (ws_output_lines s', ws_last_len s')) = new_lines_at env k"
    using web_run_batch[OF run] by (simp add: st new_lines_at_def)
  have "web_tick env rt (si_process si) (0 + k) s' =
        Stop (Inr (False, UnexpectedExit),
               (if server_error (ws_container ?s) = None
                then (ws_container ?s)\<lparr>server_error := Some ''Web server stopped unexpectedly''\<rparr>
                else ws_container ?s),
               tr0)"
    using web_tick_exited[where env = env and k = k and s = s' and p = "si_process si"
        and rt = rt and code = code] clean exited
    by (simp add: batch inv scan_new_lines_None)
  with run have "web_poll_loop env rt (si_process si) 0 ?s =
        Some (Inr (False, UnexpectedExit),
               (if server_error (ws_container ?s) = None
                then (ws_container ?s)\<lparr>server_error := Some ''Web server stopped unexpectedly''\<rparr>
                else ws_container ?s),
               tr0)"
    by (rule web_loop_from_run)
  then show ?thesis unfolding run_main_web_app_running[OF started] .
qed

lemma run_web_server_last_words:
  "run_web_server env_last_words fp False default_max_wait =
     Some (Inr \<lparr>si_success = True, si_error = None, si_process = 10,
           si_url = Some ''http://127.0.0.1:8000'', si_output_lines = []\<rparr>, [Spawn fp])"
proof -
  have "run_web_server env_last_words fp False default_max_wait =
         Some (Inr \<lparr>si_success = True, si_error = None, si_process = 10,
               si_url = Some (server_url_of 8000),
               si_output_lines = startup_lines env_last_words\<rparr>,
          Spawn (abspath env_last_words fp) #
            (if False then [OpenBrowser (server_url_of 8000)] else []))"
    by (rule run_web_server_bound_at_once)
       (simp_all add: env_last_words_def env_quiet_server_def default_ports_def
          default_max_wait_def)
  then show ?thesis
    by (simp add: env_last_words_def env_quiet_server_def server_url_of_def
        str_nat.simps digit_char_def)
qed

text \<open>
  C8 as stated fails: the server prints a last line and exits; the reader thread appends
  the line after the slice of the first tick, the poll of that tick ends the session, and
  the only batch of the session is empty.
\<close>

theorem last_words_are_never_drained:
  "run_main_web_app env_last_words ''/srv/app/main.py'' False None None =
     Some (Inr (False, UnexpectedExit),
           \<lparr>server_process = Some 10, server_output = [],
            server_url = Some ''http://127.0.0.1:8000'',
            server_error = Some ''Web server stopped unexpectedly''\<rparr>,
           [Spawn ''/srv/app/main.py'']) \<and>
   new_lines_at env_last_words 0 = [] \<and>
   raced env_last_words 0 = [''Shutting down'']"
proof -
  have nl: "new_lines_at env_last_words 0 = []"
    by (simp add: new_lines_at_def batch_at_def drain_def Let_def env_last_words_def
        env_quiet_server_def)
  have env: "poll env_last_words 0 = Returns (Some 0)"
    "raced env_last_words 0 = [''Shutting down'']"
    by (simp_all add: env_last_words_def env_quiet_server_def)
  have "run_main_web_app env_last_words ''/srv/app/main.py'' False None None =
     Some (Inr (False, UnexpectedExit),
           \<lparr>server_process = Some 10, server_output = [],
            server_url = Some ''http://127.0.0.1:8000'',
            server_error = Some ''Web server stopped unexpectedly''\<rparr>,
           [Spawn ''/srv/app/main.py''])"
    using web_exit_run[where k = 0 and code = 0 and rt = None and c = None,
        OF run_web_server_last_words[of "''/srv/app/main.py''"]]
    by (simp add: nl env web_start_def empty_container_def)
  with nl env show ?thesis by simp
qed

theorem batches_lossless_up_to_last_slice_witness:
  "concat (map (new_lines_at env_crash_while_running) [0..<2]) =
     [''Running on http://127.0.0.1:8000'', ''GET /'',
      ''Traceback (most recent call last):'', ''ZeroDivisionError: division by zero'']"
  using batches_lossless_up_to_last_slice[where env = env_crash_while_running and n = 1,
      THEN conjunct1]
  by (simp add: env_crash_while_running_def env_quiet_server_def eval_nat_numeral)


end
